theory Spec2Isabelle
  imports Complex_Main
begin

section \<open>Arrays\<close>

text \<open>
  The analysis modules work on numpy arrays. An array is modelled by its shape and its
  elements in row-major (C) order, as numpy stores a contiguous array. The element type
  is a parameter: float64 data is idealised as \<^typ>\<open>real\<close> (rounding, infinities and NaN
  are outside the model), index arrays hold \<^typ>\<open>nat\<close> and masks hold \<^typ>\<open>bool\<close>.
  Every operation that raises in numpy returns the error as a value.
\<close>

datatype py_error =
    ValueError string
  | TypeError string
  | AxisError
  | IndexError

record 'a ndarray =
  shape :: "nat list"
  dat :: "'a list"

definition ndim :: "'a ndarray \<Rightarrow> nat" where
  "ndim a = length (shape a)"

definition then_do :: "py_error + 'a \<Rightarrow> ('a \<Rightarrow> py_error + 'b) \<Rightarrow> py_error + 'b" where
  "then_do r k = (case r of Inl e \<Rightarrow> Inl e | Inr v \<Rightarrow> k v)"

text \<open>All multi-indices of a shape, in row-major order.\<close>

fun indices :: "nat list \<Rightarrow> nat list list" where
  "indices [] = [[]]"
| "indices (d # ds) = concat (map (\<lambda>i. map ((#) i) (indices ds)) [0..<d])"

text \<open>The offset of a multi-index in the row-major data.\<close>

definition ravel :: "nat list \<Rightarrow> nat list \<Rightarrow> nat" where
  "ravel sh idx = foldl (\<lambda>acc (d, k). acc * d + k) 0 (zip sh idx)"

definition item :: "'a ndarray \<Rightarrow> nat list \<Rightarrow> 'a" where
  "item a idx = dat a ! ravel (shape a) idx"

definition from_fun :: "nat list \<Rightarrow> (nat list \<Rightarrow> 'a) \<Rightarrow> 'a ndarray" where
  "from_fun sh f = \<lparr>shape = sh, dat = map f (indices sh)\<rparr>"

text \<open>An elementwise function of one array (\<open>np.sin(x)\<close>, \<open>x / 2.0\<close>, \<open>x ** 2\<close>, \<open>x == i\<close>).\<close>

definition ufunc1 :: "('a \<Rightarrow> 'b) \<Rightarrow> 'a ndarray \<Rightarrow> 'b ndarray" where
  "ufunc1 f a = \<lparr>shape = shape a, dat = map f (dat a)\<rparr>"

text \<open>
  Broadcasting of two shapes: the shorter is padded with leading ones, and two extents
  are compatible when they are equal or one of them is 1.
\<close>

definition pad_shape :: "nat \<Rightarrow> nat list \<Rightarrow> nat list" where
  "pad_shape n sh = replicate (n - length sh) 1 @ sh"

definition bdim :: "nat \<Rightarrow> nat \<Rightarrow> nat" where
  "bdim a b = (if a = 1 then b else a)"

definition compatible :: "nat list \<Rightarrow> nat list \<Rightarrow> bool" where
  "compatible s t =
     (let n = max (length s) (length t)
      in list_all (\<lambda>(a, b). a = b \<or> a = 1 \<or> b = 1) (zip (pad_shape n s) (pad_shape n t)))"

definition broadcast_shape :: "nat list \<Rightarrow> nat list \<Rightarrow> nat list" where
  "broadcast_shape s t =
     (let n = max (length s) (length t)
      in map (\<lambda>(a, b). bdim a b) (zip (pad_shape n s) (pad_shape n t)))"

text \<open>The index an operand of shape \<open>sh\<close> is read at, for the result's index \<open>idx\<close>.\<close>

definition bidx :: "nat list \<Rightarrow> nat list \<Rightarrow> nat list" where
  "bidx sh idx =
     map (\<lambda>(d, k). if d = 1 then 0 else k) (zip sh (drop (length idx - length sh) idx))"

definition ufunc2 :: "('a \<Rightarrow> 'b \<Rightarrow> 'c) \<Rightarrow> 'a ndarray \<Rightarrow> 'b ndarray \<Rightarrow> py_error + 'c ndarray" where
  "ufunc2 f a b =
     (if compatible (shape a) (shape b)
      then Inr (from_fun (broadcast_shape (shape a) (shape b))
                  (\<lambda>idx. f (item a (bidx (shape a) idx)) (item b (bidx (shape b) idx))))
      else Inl (ValueError ''operands could not be broadcast together''))"

text \<open>Indexing: \<open>a[:, k]\<close>, \<open>a[:, None]\<close> and \<open>a[None, :]\<close>.\<close>

definition column :: "'a ndarray \<Rightarrow> nat \<Rightarrow> py_error + 'a ndarray" where
  "column a k =
     (case shape a of
        d0 # d1 # ds \<Rightarrow>
          if k < d1
          then Inr (from_fun (d0 # ds)
                      (\<lambda>idx. case idx of i # r \<Rightarrow> item a (i # k # r) | [] \<Rightarrow> item a []))
          else Inl IndexError
      | _ \<Rightarrow> Inl IndexError)"

definition newaxis_after :: "'a ndarray \<Rightarrow> py_error + 'a ndarray" where
  "newaxis_after a =
     (case shape a of
        d0 # ds \<Rightarrow> Inr \<lparr>shape = d0 # 1 # ds, dat = dat a\<rparr>
      | [] \<Rightarrow> Inl IndexError)"

definition newaxis_before :: "'a ndarray \<Rightarrow> py_error + 'a ndarray" where
  "newaxis_before a =
     (case shape a of
        d0 # ds \<Rightarrow> Inr \<lparr>shape = 1 # d0 # ds, dat = dat a\<rparr>
      | [] \<Rightarrow> Inl IndexError)"

text \<open>Reductions: \<open>np.min(a, axis=1)\<close>, \<open>np.argmin(a, axis=1)\<close> and \<open>a.sum()\<close>.\<close>

definition lane :: "'a ndarray \<Rightarrow> nat \<Rightarrow> nat list \<Rightarrow> 'a list" where
  "lane a d1 idx =
     (case idx of
        i # r \<Rightarrow> map (\<lambda>k. item a (i # k # r)) [0..<d1]
      | [] \<Rightarrow> [])"

definition amin_axis1 :: "real ndarray \<Rightarrow> py_error + real ndarray" where
  "amin_axis1 a =
     (case shape a of
        d0 # d1 # ds \<Rightarrow>
          if d1 = 0
          then Inl (ValueError ''zero-size array to reduction operation minimum which has no identity'')
          else Inr (from_fun (d0 # ds) (\<lambda>idx. min_list (lane a d1 idx)))
      | _ \<Rightarrow> Inl AxisError)"

text \<open>
  numpy's argmin scans a lane from the left and keeps the first position of the
  smallest value seen so far.
\<close>

fun argmin_from :: "real \<Rightarrow> nat \<Rightarrow> nat \<Rightarrow> real list \<Rightarrow> nat" where
  "argmin_from mp mi i [] = mi"
| "argmin_from mp mi i (x # xs) =
     (if x < mp then argmin_from x i (Suc i) xs else argmin_from mp mi (Suc i) xs)"

fun argmin_list :: "real list \<Rightarrow> nat" where
  "argmin_list [] = 0"
| "argmin_list (x # xs) = argmin_from x 0 1 xs"

definition argmin_axis1 :: "real ndarray \<Rightarrow> py_error + nat ndarray" where
  "argmin_axis1 a =
     (case shape a of
        d0 # d1 # ds \<Rightarrow>
          if d1 = 0
          then Inl (ValueError ''attempt to get argmin of an empty sequence'')
          else Inr (from_fun (d0 # ds) (\<lambda>idx. argmin_list (lane a d1 idx)))
      | _ \<Rightarrow> Inl AxisError)"

definition asum :: "real ndarray \<Rightarrow> real" where
  "asum a = sum_list (dat a)"

section \<open>travel.py\<close>

text \<open>\<open>np.radians\<close> multiplies by \<open>pi / 180\<close>.\<close>

definition radians :: "real \<Rightarrow> real" where
  "radians x = x * (pi / 180)"

text \<open>
  \<open>haversine_np(lat1, lon1, lat2, lon2)\<close>, lines 11 to 33: every line of the source is
  one array operation, and every binary operation broadcasts its operands.
\<close>

definition haversine_np ::
  "real ndarray \<Rightarrow> real ndarray \<Rightarrow> real ndarray \<Rightarrow> real ndarray \<Rightarrow> py_error + real ndarray" where
  "haversine_np lat1_deg lon1_deg lat2_deg lon2_deg =
     (let lat1 = ufunc1 radians lat1_deg;
          lon1 = ufunc1 radians lon1_deg;
          lat2 = ufunc1 radians lat2_deg;
          lon2 = ufunc1 radians lon2_deg
      in then_do (ufunc2 (-) lon2 lon1) (\<lambda>dlon.
         then_do (ufunc2 (-) lat2 lat1) (\<lambda>dlat.
         then_do (ufunc2 (*) (ufunc1 cos lat1) (ufunc1 cos lat2)) (\<lambda>cc.
         then_do (ufunc2 (*) cc (ufunc1 (\<lambda>x. x ^ 2) (ufunc1 sin (ufunc1 (\<lambda>x. x / 2) dlon)))) (\<lambda>ccs.
         then_do (ufunc2 (+) (ufunc1 (\<lambda>x. x ^ 2) (ufunc1 sin (ufunc1 (\<lambda>x. x / 2) dlat))) ccs) (\<lambda>a.
           let c = ufunc1 (\<lambda>x. 2 * x) (ufunc1 arcsin (ufunc1 sqrt a));
               R_miles = 3959
           in Inr (ufunc1 (\<lambda>x. R_miles * x) c)))))))"

text \<open>
  \<open>compute_distance_time(gp_coords, hosp_coords, car_speed_mph, pt_speed_mph)\<close>, lines 36
  to 74: the three validations in the source's order, then the four broadcast operands, the distance
  matrix and the two time matrices. The \<open>or\<close> of the source does not read \<open>shape[1]\<close>
  of an array that is not two-dimensional; the disjunction below is true there whatever
  the second disjunct is.
\<close>

definition compute_distance_time ::
  "real ndarray \<Rightarrow> real ndarray \<Rightarrow> real \<Rightarrow> real
     \<Rightarrow> py_error + (real ndarray \<times> real ndarray \<times> real ndarray)" where
  "compute_distance_time gp_coords hosp_coords car_speed_mph pt_speed_mph =
     (if ndim gp_coords \<noteq> 2 \<or> shape gp_coords ! 1 \<noteq> 2
      then Inl (ValueError ''gp_coords must be (n_gps, 2) array'')
      else if ndim hosp_coords \<noteq> 2 \<or> shape hosp_coords ! 1 \<noteq> 2
      then Inl (ValueError ''hosp_coords must be (n_hospitals, 2) array'')
      else if car_speed_mph \<le> 0 \<or> pt_speed_mph \<le> 0
      then Inl (ValueError ''Speeds must be positive'')
      else
        then_do (then_do (column gp_coords 0) newaxis_after) (\<lambda>lat_g.
        then_do (then_do (column gp_coords 1) newaxis_after) (\<lambda>lon_g.
        then_do (then_do (column hosp_coords 0) newaxis_before) (\<lambda>lat_h.
        then_do (then_do (column hosp_coords 1) newaxis_before) (\<lambda>lon_h.
        then_do (haversine_np lat_g lon_g lat_h lon_h) (\<lambda>dist_miles.
          let car_time_min = ufunc1 (\<lambda>x. (x / car_speed_mph) * 60) dist_miles;
              pt_time_min = ufunc1 (\<lambda>x. (x / pt_speed_mph) * 60) dist_miles
          in Inr (dist_miles, car_time_min, pt_time_min)))))))"

section \<open>demand.py\<close>

text \<open>
  An argument of \<open>nearest_metrics\<close> (lines 11 to 74) is any Python object; the function
  asks of each of the four whether it is a numpy array, then takes the three row minima
  and derives the other metrics from them. The tuple it returns is a record here.
\<close>

datatype pyobj =
    Array "real ndarray"
  | PyList "real list"
  | PyNone

fun is_ndarray :: "pyobj \<Rightarrow> bool" where
  "is_ndarray (Array a) = True"
| "is_ndarray _ = False"

fun the_array :: "pyobj \<Rightarrow> real ndarray" where
  "the_array (Array a) = a"
| "the_array (PyList xs) = \<lparr>shape = [length xs], dat = xs\<rparr>"
| "the_array PyNone = \<lparr>shape = [], dat = []\<rparr>"

record metrics =
  nearest_dist :: "real ndarray"
  nearest_car_time :: "real ndarray"
  nearest_pt_time :: "real ndarray"
  fuel_cost :: "real ndarray"
  co2 :: "real ndarray"
  weighted_car :: "real ndarray"
  weighted_pt :: "real ndarray"
  weighted_access_score :: "real ndarray"

definition nearest_metrics ::
  "pyobj \<Rightarrow> pyobj \<Rightarrow> pyobj \<Rightarrow> pyobj \<Rightarrow> real \<Rightarrow> real \<Rightarrow> real \<Rightarrow> py_error + metrics" where
  "nearest_metrics dist_miles car_time_min pt_time_min monthly_referrals
       car_speed_mph fuel_cost_per_mile co2_per_mile =
     (if \<not> list_all is_ndarray [dist_miles, car_time_min, pt_time_min, monthly_referrals]
      then Inl (TypeError ''Inputs must be numpy arrays'')
      else
        then_do (amin_axis1 (the_array dist_miles)) (\<lambda>n_dist.
        then_do (amin_axis1 (the_array car_time_min)) (\<lambda>n_car.
        then_do (amin_axis1 (the_array pt_time_min)) (\<lambda>n_pt.
          let miles = ufunc1 (\<lambda>x. x / 60 * car_speed_mph) n_car;
              fuel = ufunc1 (\<lambda>x. x * fuel_cost_per_mile) miles;
              co = ufunc1 (\<lambda>x. x * co2_per_mile) miles
          in then_do (ufunc2 (*) (the_array monthly_referrals) n_car) (\<lambda>w_car.
             then_do (ufunc2 (*) (the_array monthly_referrals) n_pt) (\<lambda>w_pt.
             then_do (ufunc2 (+) w_car w_pt) (\<lambda>score.
               Inr \<lparr>nearest_dist = n_dist, nearest_car_time = n_car, nearest_pt_time = n_pt,
                    fuel_cost = fuel, co2 = co, weighted_car = w_car, weighted_pt = w_pt,
                    weighted_access_score = score\<rparr>)))))))"

section \<open>app.py\<close>

text \<open>
  The script filters one data frame into \<open>gp_df\<close> and \<open>hospital_df\<close>. A frame is the
  list of its rows, with the columns the modelled lines read.
\<close>

record row =
  Description :: string
  result_latitude :: real
  result_longitude :: real
  Referrals :: real

text \<open>\<open>df[["result_latitude", "result_longitude"]].to_numpy()\<close>\<close>

definition coords :: "row list \<Rightarrow> real ndarray" where
  "coords df =
     \<lparr>shape = [length df, 2],
      dat = concat (map (\<lambda>r. [result_latitude r, result_longitude r]) df)\<rparr>"

text \<open>\<open>df["Referrals"].to_numpy()\<close>, also written \<open>df["Referrals"].values\<close>\<close>

definition referrals_column :: "row list \<Rightarrow> real ndarray" where
  "referrals_column df = \<lparr>shape = [length df], dat = map Referrals df\<rparr>"

text \<open>
  The sum of a pandas column depends on the column's type. \<open>pd.to_numeric\<close> makes
  \<open>Referrals\<close> an int64 column when every value of the file is a whole number and a
  float64 column otherwise. The sum of an int64 column is taken in 64-bit two's complement:
  every addition wraps around. The sum of a float64 column is numpy's float reduction;
  its rounding and the order of its additions are not code of the repository, so the
  reduction is a parameter, \<open>float64_sum\<close>. A value of an int64 column is a whole number,
  read below with \<open>floor\<close>.
\<close>

datatype dtype = Int64 | Float64

definition wrap_int64 :: "int \<Rightarrow> int" where
  "wrap_int64 k = (k + 2 ^ 63) mod 2 ^ 64 - 2 ^ 63"

definition int64_sum :: "int list \<Rightarrow> int" where
  "int64_sum xs = foldl (\<lambda>acc x. wrap_int64 (acc + x)) 0 xs"

definition series_sum :: "dtype \<Rightarrow> (real list \<Rightarrow> real) \<Rightarrow> real list \<Rightarrow> real" where
  "series_sum dt float64_sum xs =
     (case dt of
        Int64 \<Rightarrow> of_int (int64_sum (map floor xs))
      | Float64 \<Rightarrow> float64_sum xs)"

text \<open>
  \<open>df.loc[mask, "Referrals"].sum()\<close>: the sum of the column over the rows where the mask
  holds; pandas raises IndexError for a mask whose length is not the frame's.
\<close>

definition loc_sum ::
  "dtype \<Rightarrow> (real list \<Rightarrow> real) \<Rightarrow> bool ndarray \<Rightarrow> row list \<Rightarrow> py_error + real" where
  "loc_sum dt float64_sum msk df =
     (if length (dat msk) \<noteq> length df then Inl IndexError
      else Inr (series_sum dt float64_sum
                  (map (Referrals \<circ> snd) (filter fst (zip (dat msk) df)))))"

text \<open>A list comprehension whose element expression may raise.\<close>

fun comprehension :: "('a \<Rightarrow> py_error + 'b) \<Rightarrow> 'a list \<Rightarrow> py_error + 'b list" where
  "comprehension f [] = Inr []"
| "comprehension f (x # xs) =
     then_do (f x) (\<lambda>y. then_do (comprehension f xs) (\<lambda>ys. Inr (y # ys)))"

text \<open>
  The baseline comparison, lines 234 to 256: every demand point is sent to the first
  selected hospital, column 0 of the time matrices. The weighted demands of the scenario
  come from \<open>nearest_metrics\<close>.
\<close>

record comparison =
  total_weighted_car :: real
  total_weighted_pt :: real
  baseline_total_car :: real
  baseline_total_pt :: real
  improvement_car_pct :: real
  improvement_pt_pct :: real

definition baseline_comparison ::
  "real ndarray \<Rightarrow> real ndarray \<Rightarrow> row list \<Rightarrow> real ndarray \<Rightarrow> real ndarray
     \<Rightarrow> py_error + comparison" where
  "baseline_comparison car_time pt_time gp_df w_car w_pt =
     then_do (column car_time 0) (\<lambda>baseline_car.
     then_do (column pt_time 0) (\<lambda>baseline_pt.
     then_do (ufunc2 (*) baseline_car (referrals_column gp_df)) (\<lambda>baseline_weighted_car.
     then_do (ufunc2 (*) baseline_pt (referrals_column gp_df)) (\<lambda>baseline_weighted_pt.
       let t_car = asum w_car;
           t_pt = asum w_pt;
           b_car = asum baseline_weighted_car;
           b_pt = asum baseline_weighted_pt
       in Inr \<lparr>total_weighted_car = t_car, total_weighted_pt = t_pt,
                baseline_total_car = b_car, baseline_total_pt = b_pt,
                improvement_car_pct =
                  (if b_car > 0 then (b_car - t_car) / b_car * 100 else 0),
                improvement_pt_pct =
                  (if b_pt > 0 then (b_pt - t_pt) / b_pt * 100 else 0)\<rparr>))))"

text \<open>
  The hospital summary, lines 275 to 291: one entry per row of \<open>hospital_df\<close> in each
  column. The type of the \<open>Referrals\<close> column of \<open>gp_df\<close> and numpy's float reduction are
  the first two arguments.
\<close>

record summary =
  Hospital :: "string list"
  Total_Referrals_Assigned :: "real list"
  Total_Weighted_Demand_Car :: "real list"
  Total_Weighted_Demand_PT :: "real list"

definition weighted_demand :: "real ndarray \<Rightarrow> row list \<Rightarrow> nat \<Rightarrow> py_error + real" where
  "weighted_demand time gp_df i =
     then_do (column time i) (\<lambda>c.
     then_do (ufunc2 (*) c (referrals_column gp_df)) (\<lambda>w. Inr (asum w)))"

definition hospital_summary ::
  "dtype \<Rightarrow> (real list \<Rightarrow> real) \<Rightarrow> row list \<Rightarrow> row list \<Rightarrow> real ndarray \<Rightarrow> real ndarray
     \<Rightarrow> py_error + summary" where
  "hospital_summary dt float64_sum hospital_df gp_df car_time pt_time =
     then_do (argmin_axis1 car_time) (\<lambda>nearest_hospital_index.
     then_do (comprehension
                (\<lambda>i. loc_sum dt float64_sum (ufunc1 (\<lambda>k. k = i) nearest_hospital_index) gp_df)
                [0..<length hospital_df]) (\<lambda>assigned.
     then_do (comprehension (weighted_demand car_time gp_df) [0..<length hospital_df]) (\<lambda>wd_car.
     then_do (comprehension (weighted_demand pt_time gp_df) [0..<length hospital_df]) (\<lambda>wd_pt.
       Inr \<lparr>Hospital = map Description hospital_df,
            Total_Referrals_Assigned = assigned,
            Total_Weighted_Demand_Car = wd_car,
            Total_Weighted_Demand_PT = wd_pt\<rparr>))))"

text \<open>
  The script from the coordinates to the summary, lines 196 to 291: the matrices, the
  nearest-site metrics, the baseline comparison and the hospital summary, in this order.
\<close>

definition scenario ::
  "dtype \<Rightarrow> (real list \<Rightarrow> real) \<Rightarrow> row list \<Rightarrow> row list \<Rightarrow> real \<Rightarrow> real \<Rightarrow> real \<Rightarrow> real
     \<Rightarrow> py_error + (metrics \<times> comparison \<times> summary)" where
  "scenario dt float64_sum gp_df hospital_df car_speed pt_speed fuel_cost_per_mile
       co2_per_mile =
     (let gp_coords = coords gp_df;
          hosp_coords = coords hospital_df
      in then_do (compute_distance_time gp_coords hosp_coords car_speed pt_speed)
           (\<lambda>(dist_miles, car_time, pt_time).
         then_do (nearest_metrics (Array dist_miles) (Array car_time) (Array pt_time)
                    (Array (referrals_column gp_df)) car_speed fuel_cost_per_mile co2_per_mile)
           (\<lambda>m.
         then_do (baseline_comparison car_time pt_time gp_df (weighted_car m) (weighted_pt m))
           (\<lambda>c.
         then_do (hospital_summary dt float64_sum hospital_df gp_df car_time pt_time)
           (\<lambda>s. Inr (m, c, s))))))"

section \<open>Reference definitions\<close>

text \<open>
  The haversine formula for two points given in degrees, on a sphere of radius 3959
  miles: the distance the specification asks of every pair.
\<close>

definition haversine_miles :: "real \<Rightarrow> real \<Rightarrow> real \<Rightarrow> real \<Rightarrow> real" where
  "haversine_miles lat1 lon1 lat2 lon2 =
     3959 * (2 * arcsin (sqrt ((sin ((radians lat2 - radians lat1) / 2))\<^sup>2
        + cos (radians lat1) * cos (radians lat2) * (sin ((radians lon2 - radians lon1) / 2))\<^sup>2)))"

text \<open>
  The referrals of the demand points whose nearest-site index is \<open>j\<close>, in the order of the
  rows of \<open>gp_df\<close>.
\<close>

definition referrals_assigned_to :: "nat ndarray \<Rightarrow> row list \<Rightarrow> nat \<Rightarrow> real list" where
  "referrals_assigned_to idx gp_df j =
     map (\<lambda>i. Referrals (gp_df ! i)) (filter (\<lambda>i. item idx [i] = j) [0..<length gp_df])"

text \<open>An array is well formed when it holds as many elements as its shape says.\<close>

definition wf :: "'a ndarray \<Rightarrow> bool" where
  "wf a = (length (dat a) = prod_list (shape a))"

section \<open>Arrays: indexing and broadcasting\<close>

lemma then_do_Inr [simp]: "then_do (Inr v) k = k v"
  by (simp add: then_do_def)

lemma then_do_Inl [simp]: "then_do (Inl e) k = Inl e"
  by (simp add: then_do_def)

lemma length_indices: "length (indices sh) = prod_list sh"
proof (induction sh)
  case Nil
  show ?case by simp
next
  case (Cons d ds)
  have "length (concat (map (\<lambda>i. map ((#) i) (indices ds)) [0..<d])) = d * prod_list ds"
    by (simp add: length_concat o_def Cons.IH sum_list_triv)
  then show ?case by simp
qed

lemma nth_concat_uniform:
  "\<lbrakk>\<forall>x \<in> set xss. length x = P; i < length xss; r < P\<rbrakk>
     \<Longrightarrow> concat xss ! (i * P + r) = xss ! i ! r"
proof (induction xss arbitrary: i)
  case Nil
  then show ?case by simp
next
  case (Cons xs xss)
  show ?case
  proof (cases i)
    case 0
    with Cons.prems show ?thesis by (simp add: nth_append)
  next
    case (Suc i')
    have len: "length xs = P" using Cons.prems(1) by simp
    have "concat (xs # xss) ! (i * P + r) = concat xss ! (i' * P + r)"
      using Suc len by (simp add: nth_append)
    also have "\<dots> = xss ! i' ! r"
      using Cons.IH [of i'] Cons.prems Suc by simp
    finally show ?thesis using Suc by simp
  qed
qed

lemma ravel_foldl:
  "length idx = length sh \<Longrightarrow>
     foldl (\<lambda>acc (d, k). acc * d + k) (acc::nat) (zip sh idx)
       = acc * prod_list sh + foldl (\<lambda>acc (d, k). acc * d + k) 0 (zip sh idx)"
proof (induction sh arbitrary: idx acc)
  case Nil
  then show ?case by simp
next
  case (Cons d ds)
  then obtain i is' where idx: "idx = i # is'" and len: "length is' = length ds"
    by (cases idx) auto
  show ?case
    using Cons.IH [OF len, of "acc * d + i"] Cons.IH [OF len, of i]
    by (simp add: idx algebra_simps)
qed

lemma ravel_Cons:
  "length idx = length sh \<Longrightarrow> ravel (d # sh) (i # idx) = i * prod_list sh + ravel sh idx"
  using ravel_foldl [of idx sh i] by (simp add: ravel_def)

lemma ravel_Nil [simp]: "ravel [] [] = 0"
  by (simp add: ravel_def)

lemma ravel_less: "list_all2 (<) idx sh \<Longrightarrow> ravel sh idx < prod_list sh"
proof (induction idx sh rule: list_all2_induct)
  case Nil
  show ?case by simp
next
  case (Cons i idx d sh)
  have len: "length idx = length sh" using Cons.hyps(2) by (rule list_all2_lengthD)
  have "i * prod_list sh + ravel sh idx < Suc i * prod_list sh"
    using Cons.IH by simp
  also have "\<dots> \<le> d * prod_list sh"
    using Cons.hyps(1) by (intro mult_le_mono1) simp
  finally show ?case by (simp add: ravel_Cons [OF len])
qed

lemma nth_indices: "list_all2 (<) idx sh \<Longrightarrow> indices sh ! ravel sh idx = idx"
proof (induction idx sh rule: list_all2_induct)
  case Nil
  show ?case by simp
next
  case (Cons i idx d sh)
  have len: "length idx = length sh" using Cons.hyps(2) by (rule list_all2_lengthD)
  have r: "ravel sh idx < prod_list sh" using Cons.hyps(2) by (rule ravel_less)
  let ?xss = "map (\<lambda>i. map ((#) i) (indices sh)) [0..<d]"
  have "concat ?xss ! (i * prod_list sh + ravel sh idx) = ?xss ! i ! ravel sh idx"
    by (rule nth_concat_uniform) (use Cons.hyps(1) r in \<open>auto simp: length_indices\<close>)
  also have "\<dots> = i # idx"
    using Cons.hyps(1) r Cons.IH by (simp add: length_indices)
  finally show ?case by (simp add: ravel_Cons [OF len])
qed

lemma item_from_fun: "list_all2 (<) idx sh \<Longrightarrow> item (from_fun sh f) idx = f idx"
  using ravel_less [of idx sh] nth_indices [of idx sh]
  by (simp add: item_def from_fun_def length_indices)

lemma shape_from_fun [simp]: "shape (from_fun sh f) = sh"
  by (simp add: from_fun_def)

lemma shape_ufunc1 [simp]: "shape (ufunc1 f a) = shape a"
  by (simp add: ufunc1_def)

lemma wf_from_fun [simp]: "wf (from_fun sh f)"
  by (simp add: wf_def from_fun_def length_indices)

lemma wf_ufunc1 [simp]: "wf (ufunc1 f a) = wf a"
  by (simp add: wf_def ufunc1_def)

lemma item_ufunc1:
  "wf a \<Longrightarrow> list_all2 (<) idx (shape a) \<Longrightarrow> item (ufunc1 f a) idx = f (item a idx)"
  using ravel_less [of idx "shape a"] by (simp add: item_def ufunc1_def wf_def)

lemma bdim_simps [simp]: "bdim n 1 = n" "bdim 1 m = m" "bdim n n = n"
  by (simp_all add: bdim_def)

lemma ufunc2_2d:
  assumes "shape a = [r1, c1]" "shape b = [r2, c2]"
    and "r1 = r2 \<or> r1 = 1 \<or> r2 = 1" "c1 = c2 \<or> c1 = 1 \<or> c2 = 1"
  shows "\<exists>c. ufunc2 f a b = Inr c \<and> wf c \<and> shape c = [bdim r1 r2, bdim c1 c2] \<and>
           (\<forall>i<bdim r1 r2. \<forall>j<bdim c1 c2.
              item c [i, j] = f (item a [if r1 = 1 then 0 else i, if c1 = 1 then 0 else j])
                                (item b [if r2 = 1 then 0 else i, if c2 = 1 then 0 else j]))"
proof -
  have comp: "compatible (shape a) (shape b)"
    using assms by (simp add: compatible_def pad_shape_def)
  have sh: "broadcast_shape (shape a) (shape b) = [bdim r1 r2, bdim c1 c2]"
    using assms(1,2) by (simp add: broadcast_shape_def pad_shape_def)
  show ?thesis
    using comp sh assms(1,2) by (simp add: ufunc2_def item_from_fun bidx_def)
qed

lemma ufunc2_1d:
  assumes "shape a = [r1]" "shape b = [r2]" and "r1 = r2 \<or> r1 = 1 \<or> r2 = 1"
  shows "\<exists>c. ufunc2 f a b = Inr c \<and> wf c \<and> shape c = [bdim r1 r2] \<and>
           (\<forall>i<bdim r1 r2.
              item c [i] = f (item a [if r1 = 1 then 0 else i]) (item b [if r2 = 1 then 0 else i]))"
proof -
  have comp: "compatible (shape a) (shape b)"
    using assms by (simp add: compatible_def pad_shape_def)
  have sh: "broadcast_shape (shape a) (shape b) = [bdim r1 r2]"
    using assms(1,2) by (simp add: broadcast_shape_def pad_shape_def)
  show ?thesis
    using comp sh assms(1,2) by (simp add: ufunc2_def item_from_fun bidx_def)
qed

lemma column_2d:
  assumes "shape a = [n, m]" "k < m"
  shows "\<exists>c. column a k = Inr c \<and> wf c \<and> shape c = [n] \<and> (\<forall>i<n. item c [i] = item a [i, k])"
  using assms by (simp add: column_def item_from_fun)

lemma newaxis_after_1d:
  assumes "shape a = [n]" "wf a"
  shows "\<exists>c. newaxis_after a = Inr c \<and> wf c \<and> shape c = [n, 1] \<and> (\<forall>i<n. item c [i, 0] = item a [i])"
  using assms by (simp add: newaxis_after_def wf_def item_def ravel_def)

lemma newaxis_before_1d:
  assumes "shape a = [m]" "wf a"
  shows "\<exists>c. newaxis_before a = Inr c \<and> wf c \<and> shape c = [1, m] \<and> (\<forall>j<m. item c [0, j] = item a [j])"
  using assms by (simp add: newaxis_before_def wf_def item_def ravel_def)

lemma amin_axis1_2d:
  assumes "shape a = [n, m]" "0 < m"
  shows "\<exists>c. amin_axis1 a = Inr c \<and> wf c \<and> shape c = [n] \<and>
           (\<forall>i<n. item c [i] = min_list (map (\<lambda>k. item a [i, k]) [0..<m]))"
  using assms by (simp add: amin_axis1_def item_from_fun lane_def)

lemma argmin_axis1_2d:
  assumes "shape a = [n, m]" "0 < m"
  shows "\<exists>c. argmin_axis1 a = Inr c \<and> wf c \<and> shape c = [n] \<and>
           (\<forall>i<n. item c [i] = argmin_list (map (\<lambda>k. item a [i, k]) [0..<m]))"
  using assms by (simp add: argmin_axis1_def item_from_fun lane_def)

lemma ufunc2_row_col:
  assumes "shape a = [1, m]" "shape b = [n, 1]"
  shows "\<exists>c. ufunc2 f a b = Inr c \<and> wf c \<and> shape c = [n, m] \<and>
           (\<forall>i<n. \<forall>j<m. item c [i, j] = f (item a [0, j]) (item b [i, 0]))"
proof -
  obtain c where c: "ufunc2 f a b = Inr c" "wf c" "shape c = [bdim 1 n, bdim m 1]"
    "\<forall>i<bdim 1 n. \<forall>j<bdim m 1.
        item c [i, j] = f (item a [if (1::nat) = 1 then 0 else i, if m = 1 then 0 else j])
                          (item b [if n = 1 then 0 else i, if (1::nat) = 1 then 0 else j])"
    using ufunc2_2d [OF assms, of f] by blast
  have "item c [i, j] = f (item a [0, j]) (item b [i, 0])" if "i < n" "j < m" for i j
  proof -
    have "(if m = 1 then 0 else j) = j" "(if n = 1 then 0 else i) = i"
      using that by auto
    then show ?thesis using c(4) that by (simp add: bdim_def)
  qed
  then show ?thesis using c(1,2,3) by (simp add: bdim_def)
qed

lemma ufunc2_col_row:
  assumes "shape a = [n, 1]" "shape b = [1, m]"
  shows "\<exists>c. ufunc2 f a b = Inr c \<and> wf c \<and> shape c = [n, m] \<and>
           (\<forall>i<n. \<forall>j<m. item c [i, j] = f (item a [i, 0]) (item b [0, j]))"
proof -
  obtain c where c: "ufunc2 f a b = Inr c" "wf c" "shape c = [bdim n 1, bdim 1 m]"
    "\<forall>i<bdim n 1. \<forall>j<bdim 1 m.
        item c [i, j] = f (item a [if n = 1 then 0 else i, if (1::nat) = 1 then 0 else j])
                          (item b [if (1::nat) = 1 then 0 else i, if m = 1 then 0 else j])"
    using ufunc2_2d [OF assms, of f] by blast
  have "item c [i, j] = f (item a [i, 0]) (item b [0, j])" if "i < n" "j < m" for i j
  proof -
    have "(if m = 1 then 0 else j) = j" "(if n = 1 then 0 else i) = i"
      using that by auto
    then show ?thesis using c(4) that by (simp add: bdim_def)
  qed
  then show ?thesis using c(1,2,3) by (simp add: bdim_def)
qed

lemma ufunc2_same_2d:
  assumes "shape a = [n, m]" "shape b = [n, m]"
  shows "\<exists>c. ufunc2 f a b = Inr c \<and> wf c \<and> shape c = [n, m] \<and>
           (\<forall>i<n. \<forall>j<m. item c [i, j] = f (item a [i, j]) (item b [i, j]))"
proof -
  obtain c where c: "ufunc2 f a b = Inr c" "wf c" "shape c = [bdim n n, bdim m m]"
    "\<forall>i<bdim n n. \<forall>j<bdim m m.
        item c [i, j] = f (item a [if n = 1 then 0 else i, if m = 1 then 0 else j])
                          (item b [if n = 1 then 0 else i, if m = 1 then 0 else j])"
    using ufunc2_2d [OF assms, of f] by blast
  have "item c [i, j] = f (item a [i, j]) (item b [i, j])" if "i < n" "j < m" for i j
  proof -
    have "(if m = 1 then 0 else j) = j" "(if n = 1 then 0 else i) = i"
      using that by auto
    then show ?thesis using c(4) that by (simp add: bdim_def)
  qed
  then show ?thesis using c(1,2,3) by (simp add: bdim_def)
qed

lemma ufunc2_same_1d:
  assumes "shape a = [n]" "shape b = [n]"
  shows "\<exists>c. ufunc2 f a b = Inr c \<and> wf c \<and> shape c = [n] \<and>
           (\<forall>i<n. item c [i] = f (item a [i]) (item b [i]))"
proof -
  obtain c where c: "ufunc2 f a b = Inr c" "wf c" "shape c = [bdim n n]"
    "\<forall>i<bdim n n. item c [i] = f (item a [if n = 1 then 0 else i]) (item b [if n = 1 then 0 else i])"
    using ufunc2_1d [OF assms, of f] by blast
  have "item c [i] = f (item a [i]) (item b [i])" if "i < n" for i
  proof -
    have "(if n = 1 then 0 else i) = i"
      using that by auto
    then show ?thesis using c(4) that by (simp add: bdim_def)
  qed
  then show ?thesis using c(1,2,3) by (simp add: bdim_def)
qed

section \<open>The distance and time matrices\<close>

lemma haversine_np_2d:
  assumes sh: "shape lat1 = [n, 1]" "shape lon1 = [n, 1]" "shape lat2 = [1, m]" "shape lon2 = [1, m]"
    and wf: "wf lat1" "wf lon1" "wf lat2" "wf lon2"
  shows "\<exists>d. haversine_np lat1 lon1 lat2 lon2 = Inr d \<and> wf d \<and> shape d = [n, m] \<and>
           (\<forall>i<n. \<forall>j<m. item d [i, j]
               = haversine_miles (item lat1 [i, 0]) (item lon1 [i, 0]) (item lat2 [0, j]) (item lon2 [0, j]))"
proof -
  let ?lat1 = "ufunc1 radians lat1" and ?lon1 = "ufunc1 radians lon1"
  let ?lat2 = "ufunc1 radians lat2" and ?lon2 = "ufunc1 radians lon2"
  obtain dlon where dlon: "ufunc2 (-) ?lon2 ?lon1 = Inr dlon" "wf dlon" "shape dlon = [n, m]"
    "\<forall>i<n. \<forall>j<m. item dlon [i, j] = item ?lon2 [0, j] - item ?lon1 [i, 0]"
    using ufunc2_row_col [of ?lon2 m ?lon1 n "(-)"] sh by auto
  obtain dlat where dlat: "ufunc2 (-) ?lat2 ?lat1 = Inr dlat" "wf dlat" "shape dlat = [n, m]"
    "\<forall>i<n. \<forall>j<m. item dlat [i, j] = item ?lat2 [0, j] - item ?lat1 [i, 0]"
    using ufunc2_row_col [of ?lat2 m ?lat1 n "(-)"] sh by auto
  obtain cc where cc: "ufunc2 (*) (ufunc1 cos ?lat1) (ufunc1 cos ?lat2) = Inr cc" "wf cc"
    "shape cc = [n, m]"
    "\<forall>i<n. \<forall>j<m. item cc [i, j] = item (ufunc1 cos ?lat1) [i, 0] * item (ufunc1 cos ?lat2) [0, j]"
    using ufunc2_col_row [of "ufunc1 cos ?lat1" n "ufunc1 cos ?lat2" m "(*)"] sh by auto
  let ?sdlon = "ufunc1 (\<lambda>x. x\<^sup>2) (ufunc1 sin (ufunc1 (\<lambda>x. x / 2) dlon))"
  let ?sdlat = "ufunc1 (\<lambda>x. x\<^sup>2) (ufunc1 sin (ufunc1 (\<lambda>x. x / 2) dlat))"
  obtain ccs where ccs: "ufunc2 (*) cc ?sdlon = Inr ccs" "wf ccs" "shape ccs = [n, m]"
    "\<forall>i<n. \<forall>j<m. item ccs [i, j] = item cc [i, j] * item ?sdlon [i, j]"
    using ufunc2_same_2d [of cc n m ?sdlon "(*)"] cc(3) dlon(3) by auto
  obtain a where a: "ufunc2 (+) ?sdlat ccs = Inr a" "wf a" "shape a = [n, m]"
    "\<forall>i<n. \<forall>j<m. item a [i, j] = item ?sdlat [i, j] + item ccs [i, j]"
    using ufunc2_same_2d [of ?sdlat n m ccs "(+)"] ccs(3) dlat(3) by auto
  let ?d = "ufunc1 (\<lambda>x. 3959 * x) (ufunc1 (\<lambda>x. 2 * x) (ufunc1 arcsin (ufunc1 sqrt a)))"
  have eq: "haversine_np lat1 lon1 lat2 lon2 = Inr ?d"
    by (simp add: haversine_np_def Let_def dlon(1) dlat(1) cc(1) ccs(1) a(1))
  have "item ?d [i, j]
      = haversine_miles (item lat1 [i, 0]) (item lon1 [i, 0]) (item lat2 [0, j]) (item lon2 [0, j])"
    if "i < n" "j < m" for i j
    using that sh wf a(2,3,4) ccs(2,3,4) cc(2,3,4) dlat(2,3,4) dlon(2,3,4)
    by (simp add: item_ufunc1 haversine_miles_def)
  then show ?thesis
    using eq a(2,3) by simp
qed

lemma compute_distance_time_ok:
  assumes gp: "shape gp = [n, 2]" and hosp: "shape hosp = [m, 2]"
    and speeds: "0 < cs" "0 < ps"
  shows "\<exists>D C P. compute_distance_time gp hosp cs ps = Inr (D, C, P) \<and>
           wf D \<and> wf C \<and> wf P \<and> shape D = [n, m] \<and> shape C = [n, m] \<and> shape P = [n, m] \<and>
           C = ufunc1 (\<lambda>x. (x / cs) * 60) D \<and> P = ufunc1 (\<lambda>x. (x / ps) * 60) D \<and>
           (\<forall>i<n. \<forall>j<m. item D [i, j]
               = haversine_miles (item gp [i, 0]) (item gp [i, 1]) (item hosp [j, 0]) (item hosp [j, 1]))"
proof -
  obtain g0 where g0: "column gp 0 = Inr g0" "wf g0" "shape g0 = [n]"
      "\<forall>i<n. item g0 [i] = item gp [i, 0]"
    using column_2d [OF gp, of 0] by auto
  obtain g1 where g1: "column gp 1 = Inr g1" "wf g1" "shape g1 = [n]"
      "\<forall>i<n. item g1 [i] = item gp [i, 1]"
    using column_2d [OF gp, of 1] by auto
  obtain h0 where h0: "column hosp 0 = Inr h0" "wf h0" "shape h0 = [m]"
      "\<forall>j<m. item h0 [j] = item hosp [j, 0]"
    using column_2d [OF hosp, of 0] by auto
  obtain h1 where h1: "column hosp 1 = Inr h1" "wf h1" "shape h1 = [m]"
      "\<forall>j<m. item h1 [j] = item hosp [j, 1]"
    using column_2d [OF hosp, of 1] by auto
  obtain lat_g where lat_g: "newaxis_after g0 = Inr lat_g" "wf lat_g" "shape lat_g = [n, 1]"
      "\<forall>i<n. item lat_g [i, 0] = item g0 [i]"
    using newaxis_after_1d [OF g0(3) g0(2)] by auto
  obtain lon_g where lon_g: "newaxis_after g1 = Inr lon_g" "wf lon_g" "shape lon_g = [n, 1]"
      "\<forall>i<n. item lon_g [i, 0] = item g1 [i]"
    using newaxis_after_1d [OF g1(3) g1(2)] by auto
  obtain lat_h where lat_h: "newaxis_before h0 = Inr lat_h" "wf lat_h" "shape lat_h = [1, m]"
      "\<forall>j<m. item lat_h [0, j] = item h0 [j]"
    using newaxis_before_1d [OF h0(3) h0(2)] by auto
  obtain lon_h where lon_h: "newaxis_before h1 = Inr lon_h" "wf lon_h" "shape lon_h = [1, m]"
      "\<forall>j<m. item lon_h [0, j] = item h1 [j]"
    using newaxis_before_1d [OF h1(3) h1(2)] by auto
  obtain D where D: "haversine_np lat_g lon_g lat_h lon_h = Inr D"
      "wf D" "shape D = [n, m]"
      "\<forall>i<n. \<forall>j<m. item D [i, j]
          = haversine_miles (item lat_g [i, 0]) (item lon_g [i, 0])
              (item lat_h [0, j]) (item lon_h [0, j])"
    using haversine_np_2d [of lat_g n lon_g lat_h m lon_h]
      lat_g lon_g lat_h lon_h by auto
  have valid: "\<not> (ndim gp \<noteq> 2 \<or> shape gp ! 1 \<noteq> 2)" "\<not> (ndim hosp \<noteq> 2 \<or> shape hosp ! 1 \<noteq> 2)"
      "\<not> (cs \<le> 0 \<or> ps \<le> 0)"
    using gp hosp speeds by (simp_all add: ndim_def)
  have eq: "compute_distance_time gp hosp cs ps
      = Inr (D, ufunc1 (\<lambda>x. (x / cs) * 60) D, ufunc1 (\<lambda>x. (x / ps) * 60) D)"
    unfolding compute_distance_time_def using valid
    by (simp add: g0(1) g1(1) [unfolded One_nat_def] h0(1) h1(1) [unfolded One_nat_def]
        lat_g(1) lon_g(1) lat_h(1) lon_h(1) D(1) Let_def)
  have "item D [i, j]
      = haversine_miles (item gp [i, 0]) (item gp [i, 1]) (item hosp [j, 0]) (item hosp [j, 1])"
    if "i < n" "j < m" for i j
    using that D(4) lat_g(4) lon_g(4) lat_h(4) lon_h(4) g0(4) g1(4) h0(4) h1(4) by simp
  then show ?thesis
    using eq D(2,3) by simp
qed

section \<open>The haversine formula and the great circle\<close>

lemma sin_half_squared: "(sin (x / 2))\<^sup>2 = (1 - cos x) / (2::real)"
  using cos_double_sin [of "x / 2"] by simp

lemma unit_dot_bound:
  fixes p1 p2 d :: real
  shows "\<bar>sin p1 * sin p2 + cos p1 * cos p2 * cos d\<bar> \<le> 1"
proof -
  have s: "\<bar>sin p1 * sin p2\<bar> \<le> ((sin p1)\<^sup>2 + (sin p2)\<^sup>2) / 2"
    using sum_squares_bound [of "\<bar>sin p1\<bar>" "\<bar>sin p2\<bar>"] by (simp add: abs_mult)
  have c: "\<bar>cos p1 * cos p2\<bar> \<le> ((cos p1)\<^sup>2 + (cos p2)\<^sup>2) / 2"
    using sum_squares_bound [of "\<bar>cos p1\<bar>" "\<bar>cos p2\<bar>"] by (simp add: abs_mult)
  have "\<bar>cos p1 * cos p2 * cos d\<bar> \<le> \<bar>cos p1 * cos p2\<bar>"
    using mult_left_le [of "\<bar>cos d\<bar>" "\<bar>cos p1 * cos p2\<bar>"] by (simp add: abs_mult)
  then have "\<bar>sin p1 * sin p2 + cos p1 * cos p2 * cos d\<bar>
      \<le> \<bar>sin p1 * sin p2\<bar> + \<bar>cos p1 * cos p2\<bar>"
    by linarith
  also have "\<dots> \<le> ((sin p1)\<^sup>2 + (sin p2)\<^sup>2) / 2 + ((cos p1)\<^sup>2 + (cos p2)\<^sup>2) / 2"
    by (rule add_mono [OF s c])
  also have "\<dots> = ((sin p1)\<^sup>2 + (cos p1)\<^sup>2 + ((sin p2)\<^sup>2 + (cos p2)\<^sup>2)) / 2"
    by (simp only: add_divide_distrib [symmetric] ac_simps)
  also have "\<dots> = 1" by simp
  finally show ?thesis .
qed

lemma two_arcsin_sqrt:
  assumes "0 \<le> a" "a \<le> (1::real)"
  shows "2 * arcsin (sqrt a) = arccos (1 - 2 * a)"
proof -
  let ?t = "arcsin (sqrt a)"
  have r: "0 \<le> sqrt a" "sqrt a \<le> 1" using assms by simp_all
  have m: "- 1 \<le> sqrt a" using r(1) by linarith
  have t: "0 \<le> ?t" "?t \<le> pi / 2"
    using arcsin_bounded [OF m r(2)] arcsin_nonneg [of "sqrt a"] r by simp_all
  have "cos (2 * ?t) = 1 - 2 * (sin ?t)\<^sup>2" by (rule cos_double_sin)
  also have "\<dots> = 1 - 2 * a" using sin_arcsin [OF m r(2)] assms by simp
  finally have "arccos (1 - 2 * a) = arccos (cos (2 * ?t))" by simp
  also have "\<dots> = 2 * ?t" using t by (intro arccos_cos) simp_all
  finally show ?thesis by simp
qed

text \<open>
  The haversine distance is the length of the great-circle arc: the radius times the
  angle between the two points seen from the centre of the sphere.
\<close>

lemma haversine_miles_central_angle:
  "haversine_miles lat1 lon1 lat2 lon2
     = 3959 * arccos (sin (radians lat1) * sin (radians lat2)
         + cos (radians lat1) * cos (radians lat2) * cos (radians lon2 - radians lon1))"
proof -
  let ?p1 = "radians lat1" and ?p2 = "radians lat2" and ?d = "radians lon2 - radians lon1"
  define a where "a = (sin ((?p2 - ?p1) / 2))\<^sup>2 + cos ?p1 * cos ?p2 * (sin (?d / 2))\<^sup>2"
  define c where "c = sin ?p1 * sin ?p2 + cos ?p1 * cos ?p2 * cos ?d"
  have "a = (1 - cos (?p2 - ?p1)) / 2 + cos ?p1 * cos ?p2 * ((1 - cos ?d) / 2)"
    unfolding a_def by (simp only: sin_half_squared)
  also have "cos (?p2 - ?p1) = cos ?p2 * cos ?p1 + sin ?p2 * sin ?p1"
    by (rule cos_diff)
  finally have c: "1 - 2 * a = c"
    by (simp add: c_def field_simps)
  have "\<bar>c\<bar> \<le> 1" unfolding c_def by (rule unit_dot_bound)
  then have "0 \<le> a" "a \<le> 1" using c by linarith+
  then have "2 * arcsin (sqrt a) = arccos c"
    using two_arcsin_sqrt [of a] c by simp
  then show ?thesis
    by (simp add: haversine_miles_def a_def c_def)
qed

section \<open>Claims about the distance and time matrices\<close>

text \<open>
  C1. For shapes \<open>(n, 2)\<close> and \<open>(m, 2)\<close> and positive speeds, \<open>compute_distance_time\<close>
  returns three \<open>n \<times> m\<close> matrices. Entry \<open>(i, j)\<close> of the distance matrix is the haversine
  distance, on a sphere of radius 3959 miles, between row \<open>i\<close> of the demand points and
  row \<open>j\<close> of the sites, and of nothing else; the car and public transport entries are
  that distance divided by the speed, times 60.
\<close>

theorem distance_time_entries:
  assumes "shape gp_coords = [n, 2]" and "shape hosp_coords = [m, 2]"
    and "0 < car_speed_mph" and "0 < pt_speed_mph"
  shows "\<exists>dist car pt.
           compute_distance_time gp_coords hosp_coords car_speed_mph pt_speed_mph
             = Inr (dist, car, pt) \<and>
           shape dist = [n, m] \<and> shape car = [n, m] \<and> shape pt = [n, m] \<and>
           (\<forall>i<n. \<forall>j<m.
              item dist [i, j]
                = haversine_miles (item gp_coords [i, 0]) (item gp_coords [i, 1])
                    (item hosp_coords [j, 0]) (item hosp_coords [j, 1]) \<and>
              item car [i, j] = item dist [i, j] / car_speed_mph * 60 \<and>
              item pt [i, j] = item dist [i, j] / pt_speed_mph * 60)"
proof -
  obtain D C P where r: "compute_distance_time gp_coords hosp_coords car_speed_mph pt_speed_mph
        = Inr (D, C, P)"
      "wf D" "shape D = [n, m]"
      "C = ufunc1 (\<lambda>x. (x / car_speed_mph) * 60) D" "P = ufunc1 (\<lambda>x. (x / pt_speed_mph) * 60) D"
      "\<forall>i<n. \<forall>j<m. item D [i, j]
          = haversine_miles (item gp_coords [i, 0]) (item gp_coords [i, 1])
              (item hosp_coords [j, 0]) (item hosp_coords [j, 1])"
    using compute_distance_time_ok [OF assms] by blast
  have "item C [i, j] = item D [i, j] / car_speed_mph * 60"
       "item P [i, j] = item D [i, j] / pt_speed_mph * 60" if "i < n" "j < m" for i j
    using that r(2,3) by (simp_all add: r(4,5) item_ufunc1)
  then show ?thesis
    using r by simp
qed

theorem distance_time_entries_witness:
  "\<exists>dist car pt.
     compute_distance_time \<lparr>shape = [1, 2], dat = [0, 0]\<rparr>
         \<lparr>shape = [2, 2], dat = [0, 0, 0, 180]\<rparr> 40 25 = Inr (dist, car, pt) \<and>
     item dist [0, 0] = 0 \<and> item dist [0, 1] = 3959 * pi \<and>
     item car [0, 1] = 3959 * pi / 40 * 60 \<and> item pt [0, 1] = 3959 * pi / 25 * 60"
proof -
  have h: "shape \<lparr>shape = [1, 2], dat = [0, 0 :: real]\<rparr> = [1, 2]"
          "shape \<lparr>shape = [2, 2], dat = [0, 0, 0, 180 :: real]\<rparr> = [2, 2]"
          "(0::real) < 40" "(0::real) < 25"
    by simp_all
  have v: "haversine_miles 0 0 0 0 = 0" "haversine_miles 0 0 0 180 = 3959 * pi"
    by (simp_all add: haversine_miles_def radians_def)
  show ?thesis
    using distance_time_entries [OF h] v
    by (auto simp: item_def ravel_def)
qed

section \<open>Nearest-site metrics\<close>

lemma nearest_metrics_ok:
  assumes D: "shape D = [nd, md]" "0 < md"
    and C: "shape C = [n, mc]" "0 < mc"
    and P: "shape P = [n, mp]" "0 < mp"
    and R: "shape R = [n]"
  shows "\<exists>r. nearest_metrics (Array D) (Array C) (Array P) (Array R) cs fc co = Inr r \<and>
           shape (nearest_dist r) = [nd] \<and> shape (nearest_car_time r) = [n] \<and>
           shape (nearest_pt_time r) = [n] \<and> shape (fuel_cost r) = [n] \<and> shape (co2 r) = [n] \<and>
           shape (weighted_car r) = [n] \<and> shape (weighted_pt r) = [n] \<and>
           shape (weighted_access_score r) = [n] \<and>
           wf (nearest_dist r) \<and> wf (nearest_car_time r) \<and> wf (nearest_pt_time r) \<and>
           wf (fuel_cost r) \<and> wf (co2 r) \<and>
           wf (weighted_car r) \<and> wf (weighted_pt r) \<and> wf (weighted_access_score r) \<and>
           (\<forall>i<nd. item (nearest_dist r) [i] = min_list (map (\<lambda>k. item D [i, k]) [0..<md])) \<and>
           (\<forall>i<n. item (nearest_car_time r) [i] = min_list (map (\<lambda>k. item C [i, k]) [0..<mc]) \<and>
                  item (nearest_pt_time r) [i] = min_list (map (\<lambda>k. item P [i, k]) [0..<mp]) \<and>
                  item (fuel_cost r) [i] = item (nearest_car_time r) [i] / 60 * cs * fc \<and>
                  item (co2 r) [i] = item (nearest_car_time r) [i] / 60 * cs * co \<and>
                  item (weighted_car r) [i] = item R [i] * item (nearest_car_time r) [i] \<and>
                  item (weighted_pt r) [i] = item R [i] * item (nearest_pt_time r) [i] \<and>
                  item (weighted_access_score r) [i]
                    = item (weighted_car r) [i] + item (weighted_pt r) [i])"
proof -
  obtain n_dist where n_dist: "amin_axis1 D = Inr n_dist" "wf n_dist" "shape n_dist = [nd]"
      "\<forall>i<nd. item n_dist [i] = min_list (map (\<lambda>k. item D [i, k]) [0..<md])"
    using amin_axis1_2d [OF D] by blast
  obtain n_car where n_car: "amin_axis1 C = Inr n_car" "wf n_car" "shape n_car = [n]"
      "\<forall>i<n. item n_car [i] = min_list (map (\<lambda>k. item C [i, k]) [0..<mc])"
    using amin_axis1_2d [OF C] by blast
  obtain n_pt where n_pt: "amin_axis1 P = Inr n_pt" "wf n_pt" "shape n_pt = [n]"
      "\<forall>i<n. item n_pt [i] = min_list (map (\<lambda>k. item P [i, k]) [0..<mp])"
    using amin_axis1_2d [OF P] by blast
  obtain w_car where w_car: "ufunc2 (*) R n_car = Inr w_car" "wf w_car" "shape w_car = [n]"
      "\<forall>i<n. item w_car [i] = item R [i] * item n_car [i]"
    using ufunc2_same_1d [OF R n_car(3)] by blast
  obtain w_pt where w_pt: "ufunc2 (*) R n_pt = Inr w_pt" "wf w_pt" "shape w_pt = [n]"
      "\<forall>i<n. item w_pt [i] = item R [i] * item n_pt [i]"
    using ufunc2_same_1d [OF R n_pt(3)] by blast
  obtain score where score: "ufunc2 (+) w_car w_pt = Inr score" "wf score" "shape score = [n]"
      "\<forall>i<n. item score [i] = item w_car [i] + item w_pt [i]"
    using ufunc2_same_1d [OF w_car(3) w_pt(3)] by blast
  let ?miles = "ufunc1 (\<lambda>x. x / 60 * cs) n_car"
  let ?r = "\<lparr>nearest_dist = n_dist, nearest_car_time = n_car, nearest_pt_time = n_pt,
             fuel_cost = ufunc1 (\<lambda>x. x * fc) ?miles, co2 = ufunc1 (\<lambda>x. x * co) ?miles,
             weighted_car = w_car, weighted_pt = w_pt, weighted_access_score = score\<rparr>"
  have eq: "nearest_metrics (Array D) (Array C) (Array P) (Array R) cs fc co = Inr ?r"
    by (simp add: nearest_metrics_def n_dist(1) n_car(1) n_pt(1) w_car(1) w_pt(1) score(1) Let_def)
  have items: "item (ufunc1 (\<lambda>x. x * fc) ?miles) [i] = item n_car [i] / 60 * cs * fc"
      "item (ufunc1 (\<lambda>x. x * co) ?miles) [i] = item n_car [i] / 60 * cs * co" if "i < n" for i
    using that n_car(2,3) by (simp_all add: item_ufunc1)
  show ?thesis
    using eq n_dist n_car n_pt w_car w_pt score items
    by (intro exI [of _ ?r]) simp
qed

lemma min_list_le: "x \<in> set xs \<Longrightarrow> min_list xs \<le> (x::real)"
  using min_list_Min [of xs] by (cases "xs = []") auto

lemma min_list_in: "xs \<noteq> [] \<Longrightarrow> min_list xs \<in> set (xs :: real list)"
  using min_list_Min [of xs] Min_in [of "set xs"] by simp

lemma row_min_le: "j < m \<Longrightarrow> min_list (map f [0..<m]) \<le> (f j :: real)"
  by (rule min_list_le) simp

lemma row_min_attained: "0 < m \<Longrightarrow> \<exists>j<m. min_list (map f [0..<m]) = (f j :: real)"
  using min_list_in [of "map f [0..<m]"] by auto

lemma row_min_props:
  assumes "0 < m" "v = min_list (map f [0..<m])"
  shows "(\<forall>j<m. v \<le> (f j :: real)) \<and> (\<exists>j<m. v = f j)"
  using assms row_min_le [of _ m f] row_min_attained [of m f] by simp

lemma min_list_scaled:
  assumes "xs \<noteq> []" "0 < (s::real)"
  shows "min_list (map (\<lambda>x. (x / s) * 60) xs) = (min_list xs / s) * 60"
proof -
  have m: "mono (\<lambda>x::real. (x / s) * 60)"
    using assms(2) by (intro monoI) (simp add: divide_right_mono)
  have "min_list (map (\<lambda>x. (x / s) * 60) xs) = Min ((\<lambda>x. (x / s) * 60) ` set xs)"
    using assms(1) min_list_Min [of "map (\<lambda>x. (x / s) * 60) xs"] by simp
  also have "\<dots> = (Min (set xs) / s) * 60"
    using mono_Min_commute [OF m, of "set xs"] assms(1) by simp
  finally show ?thesis
    using assms(1) by (simp add: min_list_Min)
qed

text \<open>
  C2. \<open>nearest_metrics\<close> takes the minimum of every row of each of the three matrices on
  its own: the nearest distance, car time and public transport time of a demand point are
  at most the entry of every site in the point's row of the same matrix, and equal to the
  entry of some site.
\<close>

theorem nearest_is_row_minimum:
  assumes "shape dist_miles = [nd, md]" and "0 < md"
    and "shape car_time_min = [n, mc]" and "0 < mc"
    and "shape pt_time_min = [n, mp]" and "0 < mp"
    and "shape monthly_referrals = [n]"
  shows "\<exists>r. nearest_metrics (Array dist_miles) (Array car_time_min) (Array pt_time_min) (Array monthly_referrals) cs fc co = Inr r \<and>
           (\<forall>i<nd. (\<forall>j<md. item (nearest_dist r) [i] \<le> item dist_miles [i, j]) \<and>
                   (\<exists>j<md. item (nearest_dist r) [i] = item dist_miles [i, j])) \<and>
           (\<forall>i<n. (\<forall>j<mc. item (nearest_car_time r) [i] \<le> item car_time_min [i, j]) \<and>
                  (\<exists>j<mc. item (nearest_car_time r) [i] = item car_time_min [i, j]) \<and>
                  (\<forall>j<mp. item (nearest_pt_time r) [i] \<le> item pt_time_min [i, j]) \<and>
                  (\<exists>j<mp. item (nearest_pt_time r) [i] = item pt_time_min [i, j]))"
proof -
  obtain r where r: "nearest_metrics (Array dist_miles) (Array car_time_min) (Array pt_time_min) (Array monthly_referrals) cs fc co = Inr r"
      "\<forall>i<nd. item (nearest_dist r) [i] = min_list (map (\<lambda>k. item dist_miles [i, k]) [0..<md])"
      "\<forall>i<n. item (nearest_car_time r) [i] = min_list (map (\<lambda>k. item car_time_min [i, k]) [0..<mc])"
      "\<forall>i<n. item (nearest_pt_time r) [i] = min_list (map (\<lambda>k. item pt_time_min [i, k]) [0..<mp])"
    using nearest_metrics_ok [OF assms, of cs fc co] by blast
  have "(\<forall>j<md. item (nearest_dist r) [i] \<le> item dist_miles [i, j]) \<and>
        (\<exists>j<md. item (nearest_dist r) [i] = item dist_miles [i, j])" if "i < nd" for i
    using that r(2) by (intro row_min_props [OF assms(2)]) simp
  moreover have "(\<forall>j<mc. item (nearest_car_time r) [i] \<le> item car_time_min [i, j]) \<and>
        (\<exists>j<mc. item (nearest_car_time r) [i] = item car_time_min [i, j])" if "i < n" for i
    using that r(3) by (intro row_min_props [OF assms(4)]) simp
  moreover have "(\<forall>j<mp. item (nearest_pt_time r) [i] \<le> item pt_time_min [i, j]) \<and>
        (\<exists>j<mp. item (nearest_pt_time r) [i] = item pt_time_min [i, j])" if "i < n" for i
    using that r(4) by (intro row_min_props [OF assms(6)]) simp
  ultimately show ?thesis
    using r(1) by simp
qed

theorem nearest_is_row_minimum_witness:
  "\<exists>r. nearest_metrics (Array \<lparr>shape = [1, 2], dat = [3, 1]\<rparr>)
          (Array \<lparr>shape = [1, 2], dat = [6, 2]\<rparr>) (Array \<lparr>shape = [1, 2], dat = [9, 3]\<rparr>)
          (Array \<lparr>shape = [1], dat = [100]\<rparr>) 30 (1 / 5) (1 / 4) = Inr r \<and>
     item (nearest_dist r) [0] = 1 \<and> item (nearest_car_time r) [0] = 2 \<and>
     item (nearest_pt_time r) [0] = 3"
proof -
  have h: "shape \<lparr>shape = [1, 2], dat = [3, 1 :: real]\<rparr> = [1, 2]" "(0::nat) < 2"
          "shape \<lparr>shape = [1, 2], dat = [6, 2 :: real]\<rparr> = [1, 2]" "(0::nat) < 2"
          "shape \<lparr>shape = [1, 2], dat = [9, 3 :: real]\<rparr> = [1, 2]" "(0::nat) < 2"
          "shape \<lparr>shape = [1], dat = [100 :: real]\<rparr> = [1]"
    by simp_all
  show ?thesis
    using nearest_is_row_minimum [OF h, of 30 "1 / 5" "1 / 4"]
    by (force simp: item_def ravel_def less_Suc_eq numeral_2_eq_2)
qed

text \<open>
  C6. For every demand point the nearest car and public transport times are the minima
  of the point's rows of the two time matrices; the weighted car and public transport
  demands are the point's referrals times these two minima, and the access score is
  their sum. No value of another demand point enters, and the three arrays have one
  entry per demand point.
\<close>

theorem weighted_metrics_per_point:
  assumes "shape dist_miles = [nd, md]" and "0 < md"
    and "shape car_time_min = [n, mc]" and "0 < mc"
    and "shape pt_time_min = [n, mp]" and "0 < mp"
    and "shape monthly_referrals = [n]"
  shows "\<exists>r. nearest_metrics (Array dist_miles) (Array car_time_min) (Array pt_time_min)
               (Array monthly_referrals) car_speed_mph fuel_cost_per_mile co2_per_mile = Inr r \<and>
           shape (weighted_car r) = [n] \<and> shape (weighted_pt r) = [n] \<and>
           shape (weighted_access_score r) = [n] \<and>
           wf (weighted_car r) \<and> wf (weighted_pt r) \<and> wf (weighted_access_score r) \<and>
           (\<forall>i<n. item (nearest_car_time r) [i]
                     = min_list (map (\<lambda>k. item car_time_min [i, k]) [0..<mc]) \<and>
                  item (nearest_pt_time r) [i]
                     = min_list (map (\<lambda>k. item pt_time_min [i, k]) [0..<mp]) \<and>
                  item (weighted_car r) [i]
                     = item monthly_referrals [i] * item (nearest_car_time r) [i] \<and>
                  item (weighted_pt r) [i]
                     = item monthly_referrals [i] * item (nearest_pt_time r) [i] \<and>
                  item (weighted_access_score r) [i]
                     = item (weighted_car r) [i] + item (weighted_pt r) [i])"
proof -
  obtain r where r: "nearest_metrics (Array dist_miles) (Array car_time_min) (Array pt_time_min)
               (Array monthly_referrals) car_speed_mph fuel_cost_per_mile co2_per_mile = Inr r"
      "shape (weighted_car r) = [n]" "shape (weighted_pt r) = [n]"
      "shape (weighted_access_score r) = [n]"
      "wf (weighted_car r)" "wf (weighted_pt r)" "wf (weighted_access_score r)"
      "\<forall>i<n. item (nearest_car_time r) [i]
                 = min_list (map (\<lambda>k. item car_time_min [i, k]) [0..<mc]) \<and>
              item (nearest_pt_time r) [i]
                 = min_list (map (\<lambda>k. item pt_time_min [i, k]) [0..<mp]) \<and>
              item (fuel_cost r) [i] = item (nearest_car_time r) [i] / 60 * car_speed_mph
                 * fuel_cost_per_mile \<and>
              item (co2 r) [i] = item (nearest_car_time r) [i] / 60 * car_speed_mph
                 * co2_per_mile \<and>
              item (weighted_car r) [i]
                 = item monthly_referrals [i] * item (nearest_car_time r) [i] \<and>
              item (weighted_pt r) [i]
                 = item monthly_referrals [i] * item (nearest_pt_time r) [i] \<and>
              item (weighted_access_score r) [i]
                 = item (weighted_car r) [i] + item (weighted_pt r) [i]"
    using nearest_metrics_ok [OF assms, of car_speed_mph fuel_cost_per_mile co2_per_mile]
    by blast
  show ?thesis
    using r(1-7) r(8) by (intro exI [of _ r]) simp
qed

theorem weighted_metrics_per_point_witness:
  "\<exists>r. nearest_metrics (Array \<lparr>shape = [2, 2], dat = [3, 1, 2, 8]\<rparr>)
          (Array \<lparr>shape = [2, 2], dat = [6, 2, 1, 4]\<rparr>)
          (Array \<lparr>shape = [2, 2], dat = [9, 3, 5, 8]\<rparr>)
          (Array \<lparr>shape = [2], dat = [100, 10]\<rparr>) 30 (1 / 5) (1 / 4) = Inr r \<and>
     item (nearest_car_time r) [0] = 2 \<and> item (nearest_pt_time r) [0] = 3 \<and>
     item (nearest_car_time r) [1] = 1 \<and> item (nearest_pt_time r) [1] = 5 \<and>
     item (weighted_car r) [0] = 200 \<and> item (weighted_pt r) [0] = 300 \<and>
     item (weighted_access_score r) [0] = 500 \<and>
     item (weighted_car r) [1] = 10 \<and> item (weighted_pt r) [1] = 50 \<and>
     item (weighted_access_score r) [1] = 60"
proof -
  let ?D = "\<lparr>shape = [2, 2], dat = [3, 1, 2, 8 :: real]\<rparr>"
  let ?C = "\<lparr>shape = [2, 2], dat = [6, 2, 1, 4 :: real]\<rparr>"
  let ?P = "\<lparr>shape = [2, 2], dat = [9, 3, 5, 8 :: real]\<rparr>"
  let ?R = "\<lparr>shape = [2], dat = [100, 10 :: real]\<rparr>"
  have h: "shape ?D = [2, 2]" "(0::nat) < 2" "shape ?C = [2, 2]" "(0::nat) < 2"
          "shape ?P = [2, 2]" "(0::nat) < 2" "shape ?R = [2]"
    by simp_all
  obtain r where r:
      "nearest_metrics (Array ?D) (Array ?C) (Array ?P) (Array ?R) 30 (1 / 5) (1 / 4) = Inr r"
      "\<forall>i<2. item (nearest_car_time r) [i] = min_list (map (\<lambda>k. item ?C [i, k]) [0..<2]) \<and>
              item (nearest_pt_time r) [i] = min_list (map (\<lambda>k. item ?P [i, k]) [0..<2]) \<and>
              item (weighted_car r) [i] = item ?R [i] * item (nearest_car_time r) [i] \<and>
              item (weighted_pt r) [i] = item ?R [i] * item (nearest_pt_time r) [i] \<and>
              item (weighted_access_score r) [i]
                 = item (weighted_car r) [i] + item (weighted_pt r) [i]"
    using weighted_metrics_per_point [OF h, of 30 "1 / 5" "1 / 4"] by blast
  have rows: "min_list (map (\<lambda>k. item ?C [0, k]) [0..<2]) = 2"
      "min_list (map (\<lambda>k. item ?C [1, k]) [0..<2]) = 1"
      "min_list (map (\<lambda>k. item ?P [0, k]) [0..<2]) = 3"
      "min_list (map (\<lambda>k. item ?P [1, k]) [0..<2]) = 5"
      "item ?R [0] = 100" "item ?R [1] = 10"
    by (simp_all add: item_def ravel_def numeral_2_eq_2)
  have "item (nearest_car_time r) [0] = 2" "item (nearest_pt_time r) [0] = 3"
      "item (nearest_car_time r) [1] = 1" "item (nearest_pt_time r) [1] = 5"
      "item (weighted_car r) [0] = 200" "item (weighted_pt r) [0] = 300"
      "item (weighted_access_score r) [0] = 500"
      "item (weighted_car r) [1] = 10" "item (weighted_pt r) [1] = 50"
      "item (weighted_access_score r) [1] = 60"
    using r(2) [rule_format, of 0] r(2) [rule_format, of 1] rows by simp_all
  then show ?thesis
    using r(1) by (intro exI [of _ r]) simp
qed

text \<open>
  C8. Fuel cost and CO2 of a demand point come from its nearest car time alone, the
  minimum of the point's row of the car-time matrix: the implied miles are the nearest car
  time over 60 times the car speed, the fuel cost is the miles times the fuel rate and
  the CO2 is the miles times the CO2 rate. A fuel rate of 0 makes every fuel cost 0.
\<close>

theorem fuel_and_co2_from_car_time:
  assumes "shape dist_miles = [nd, md]" and "0 < md"
    and "shape car_time_min = [n, mc]" and "0 < mc"
    and "shape pt_time_min = [n, mp]" and "0 < mp"
    and "shape monthly_referrals = [n]"
  shows "\<exists>r. nearest_metrics (Array dist_miles) (Array car_time_min) (Array pt_time_min)
               (Array monthly_referrals) car_speed_mph fuel_cost_per_mile co2_per_mile = Inr r \<and>
           shape (fuel_cost r) = [n] \<and> shape (co2 r) = [n] \<and>
           wf (fuel_cost r) \<and> wf (co2 r) \<and>
           (\<forall>i<n. item (nearest_car_time r) [i]
                     = min_list (map (\<lambda>k. item car_time_min [i, k]) [0..<mc]) \<and>
                  item (fuel_cost r) [i]
                     = (item (nearest_car_time r) [i] / 60 * car_speed_mph) * fuel_cost_per_mile \<and>
                  item (co2 r) [i]
                     = (item (nearest_car_time r) [i] / 60 * car_speed_mph) * co2_per_mile \<and>
                  (fuel_cost_per_mile = 0 \<longrightarrow> item (fuel_cost r) [i] = 0))"
proof -
  obtain r where r: "nearest_metrics (Array dist_miles) (Array car_time_min) (Array pt_time_min)
               (Array monthly_referrals) car_speed_mph fuel_cost_per_mile co2_per_mile = Inr r"
      "shape (fuel_cost r) = [n]" "shape (co2 r) = [n]" "wf (fuel_cost r)" "wf (co2 r)"
      "\<forall>i<n. item (nearest_car_time r) [i]
                 = min_list (map (\<lambda>k. item car_time_min [i, k]) [0..<mc])"
      "\<forall>i<n. item (fuel_cost r) [i]
                 = item (nearest_car_time r) [i] / 60 * car_speed_mph * fuel_cost_per_mile"
      "\<forall>i<n. item (co2 r) [i] = item (nearest_car_time r) [i] / 60 * car_speed_mph * co2_per_mile"
    using nearest_metrics_ok [OF assms, of car_speed_mph fuel_cost_per_mile co2_per_mile] by blast
  have "item (fuel_cost r) [i] = 0" if "i < n" "fuel_cost_per_mile = 0" for i
    using r(7) that by simp
  with r show ?thesis
    by (intro exI [of _ r]) auto
qed

theorem fuel_and_co2_from_car_time_witness:
  "(\<exists>r. nearest_metrics (Array \<lparr>shape = [2, 2], dat = [3, 1, 2, 8]\<rparr>)
          (Array \<lparr>shape = [2, 2], dat = [6, 2, 1, 4]\<rparr>)
          (Array \<lparr>shape = [2, 2], dat = [9, 3, 5, 8]\<rparr>)
          (Array \<lparr>shape = [2], dat = [100, 10]\<rparr>) 30 (1 / 5) (1 / 4) = Inr r \<and>
      item (nearest_car_time r) [0] = 2 \<and> item (nearest_car_time r) [1] = 1 \<and>
      item (fuel_cost r) [0] = 1 / 5 \<and> item (co2 r) [0] = 1 / 4 \<and>
      item (fuel_cost r) [1] = 1 / 10 \<and> item (co2 r) [1] = 1 / 8) \<and>
   (\<exists>r. nearest_metrics (Array \<lparr>shape = [2, 2], dat = [3, 1, 2, 8]\<rparr>)
          (Array \<lparr>shape = [2, 2], dat = [6, 2, 1, 4]\<rparr>)
          (Array \<lparr>shape = [2, 2], dat = [9, 3, 5, 8]\<rparr>)
          (Array \<lparr>shape = [2], dat = [100, 10]\<rparr>) 30 0 (1 / 4) = Inr r \<and>
      item (nearest_car_time r) [0] = 2 \<and> item (nearest_car_time r) [1] = 1 \<and>
      item (fuel_cost r) [0] = 0 \<and> item (co2 r) [0] = 1 / 4 \<and>
      item (fuel_cost r) [1] = 0 \<and> item (co2 r) [1] = 1 / 8)"
proof -
  let ?D = "\<lparr>shape = [2, 2], dat = [3, 1, 2, 8 :: real]\<rparr>"
  let ?C = "\<lparr>shape = [2, 2], dat = [6, 2, 1, 4 :: real]\<rparr>"
  let ?P = "\<lparr>shape = [2, 2], dat = [9, 3, 5, 8 :: real]\<rparr>"
  let ?R = "\<lparr>shape = [2], dat = [100, 10 :: real]\<rparr>"
  have h: "shape ?D = [2, 2]" "(0::nat) < 2" "shape ?C = [2, 2]" "(0::nat) < 2"
          "shape ?P = [2, 2]" "(0::nat) < 2" "shape ?R = [2]"
    by simp_all
  have rows: "min_list (map (\<lambda>k. item ?C [0, k]) [0..<2]) = 2"
      "min_list (map (\<lambda>k. item ?C [1, k]) [0..<2]) = 1"
    by (simp_all add: item_def ravel_def numeral_2_eq_2)
  have step: "\<exists>r. nearest_metrics (Array ?D) (Array ?C) (Array ?P) (Array ?R) 30 fc (1 / 4) = Inr r \<and>
      item (nearest_car_time r) [0] = 2 \<and> item (nearest_car_time r) [1] = 1 \<and>
      item (fuel_cost r) [0] = fc \<and> item (co2 r) [0] = 1 / 4 \<and>
      item (fuel_cost r) [1] = fc / 2 \<and> item (co2 r) [1] = 1 / 8" for fc :: real
  proof -
    obtain r where r:
        "nearest_metrics (Array ?D) (Array ?C) (Array ?P) (Array ?R) 30 fc (1 / 4) = Inr r"
        "\<forall>i<2. item (nearest_car_time r) [i] = min_list (map (\<lambda>k. item ?C [i, k]) [0..<2]) \<and>
                item (fuel_cost r) [i] = (item (nearest_car_time r) [i] / 60 * 30) * fc \<and>
                item (co2 r) [i] = (item (nearest_car_time r) [i] / 60 * 30) * (1 / 4) \<and>
                (fc = 0 \<longrightarrow> item (fuel_cost r) [i] = 0)"
      using fuel_and_co2_from_car_time [OF h, of 30 fc "1 / 4"] by blast
    have "item (nearest_car_time r) [0] = 2" "item (nearest_car_time r) [1] = 1"
        "item (fuel_cost r) [0] = fc" "item (co2 r) [0] = 1 / 4"
        "item (fuel_cost r) [1] = fc / 2" "item (co2 r) [1] = 1 / 8"
      using r(2) [rule_format, of 0] r(2) [rule_format, of 1] rows by auto
    then show ?thesis
      using r(1) by (intro exI [of _ r]) simp
  qed
  show ?thesis
    using step [of "1 / 5"] step [of 0] by simp
qed

text \<open>
  C10. When one of the four array arguments of \<open>nearest_metrics\<close> is not a numpy array,
  the call raises TypeError, whatever the other arguments are: the check stands before
  every computation.
\<close>

theorem non_array_argument_raises_TypeError:
  assumes "\<not> (is_ndarray dist_miles \<and> is_ndarray car_time_min \<and> is_ndarray pt_time_min
              \<and> is_ndarray monthly_referrals)"
  shows "nearest_metrics dist_miles car_time_min pt_time_min monthly_referrals
           car_speed_mph fuel_cost_per_mile co2_per_mile
         = Inl (TypeError ''Inputs must be numpy arrays'')"
  using assms by (auto simp: nearest_metrics_def)

theorem non_array_argument_raises_TypeError_witness:
  "nearest_metrics (Array \<lparr>shape = [1, 0], dat = []\<rparr>) (Array \<lparr>shape = [1, 2], dat = [6, 2]\<rparr>)
       (Array \<lparr>shape = [1, 2], dat = [9, 3]\<rparr>) (PyList [100]) 30 (1 / 5) (1 / 4)
     = Inl (TypeError ''Inputs must be numpy arrays'')"
  by (rule non_array_argument_raises_TypeError) simp

lemma row_min_rescaled:
  assumes "wf D" "shape D = [n, m]" "0 < m" "0 < (s::real)" "i < n"
  shows "min_list (map (\<lambda>k. item (ufunc1 (\<lambda>x. (x / s) * 60) D) [i, k]) [0..<m])
           = (min_list (map (\<lambda>k. item D [i, k]) [0..<m]) / s) * 60"
proof -
  have "item (ufunc1 (\<lambda>x. (x / s) * 60) D) [i, k] = (item D [i, k] / s) * 60" if "k < m" for k
    using that assms(1,2,5) by (subst item_ufunc1) simp_all
  then have "map (\<lambda>k. item (ufunc1 (\<lambda>x. (x / s) * 60) D) [i, k]) [0..<m]
          = map (\<lambda>x. (x / s) * 60) (map (\<lambda>k. item D [i, k]) [0..<m])"
    by simp
  then have "min_list (map (\<lambda>k. item (ufunc1 (\<lambda>x. (x / s) * 60) D) [i, k]) [0..<m])
          = min_list (map (\<lambda>x. (x / s) * 60) (map (\<lambda>k. item D [i, k]) [0..<m]))"
    by (rule arg_cong)
  also have "\<dots> = (min_list (map (\<lambda>k. item D [i, k]) [0..<m]) / s) * 60"
    using assms(3,4) by (intro min_list_scaled) simp_all
  finally show ?thesis .
qed

text \<open>
  C7. On the matrices of \<open>compute_distance_time\<close>, where every car time is the distance of
  the same pair over the positive car speed times 60, the nearest distance and the
  nearest car time of a demand point are the minima of the point's rows of the two
  matrices, and the row minimum commutes with the rescaling: the nearest car time is the
  nearest distance over the car speed, times 60.
\<close>

theorem nearest_car_time_rescales_nearest_distance:
  assumes "shape gp_coords = [n, 2]" and "shape hosp_coords = [m, 2]" and "0 < m"
    and "0 < car_speed_mph" and "0 < pt_speed_mph"
    and "shape monthly_referrals = [n]"
  shows "\<exists>dist car pt r.
           compute_distance_time gp_coords hosp_coords car_speed_mph pt_speed_mph
             = Inr (dist, car, pt) \<and>
           nearest_metrics (Array dist) (Array car) (Array pt) (Array monthly_referrals)
               car_speed_mph fuel_cost_per_mile co2_per_mile = Inr r \<and>
           shape dist = [n, m] \<and> shape car = [n, m] \<and>
           shape (nearest_dist r) = [n] \<and> shape (nearest_car_time r) = [n] \<and>
           wf (nearest_dist r) \<and> wf (nearest_car_time r) \<and>
           (\<forall>i<n.
              (\<forall>j<m. item dist [i, j]
                         = haversine_miles (item gp_coords [i, 0]) (item gp_coords [i, 1])
                             (item hosp_coords [j, 0]) (item hosp_coords [j, 1]) \<and>
                      item car [i, j] = item dist [i, j] / car_speed_mph * 60) \<and>
              item (nearest_dist r) [i] = min_list (map (\<lambda>j. item dist [i, j]) [0..<m]) \<and>
              item (nearest_car_time r) [i] = min_list (map (\<lambda>j. item car [i, j]) [0..<m]) \<and>
              item (nearest_car_time r) [i] = item (nearest_dist r) [i] / car_speed_mph * 60)"
proof -
  obtain D C P where m: "compute_distance_time gp_coords hosp_coords car_speed_mph pt_speed_mph
        = Inr (D, C, P)"
      "wf D" "shape D = [n, m]" "shape C = [n, m]" "shape P = [n, m]"
      "C = ufunc1 (\<lambda>x. (x / car_speed_mph) * 60) D"
      "\<forall>i<n. \<forall>j<m. item D [i, j]
          = haversine_miles (item gp_coords [i, 0]) (item gp_coords [i, 1])
              (item hosp_coords [j, 0]) (item hosp_coords [j, 1])"
    using compute_distance_time_ok [OF assms(1,2,4,5)] by blast
  obtain r where r: "nearest_metrics (Array D) (Array C) (Array P) (Array monthly_referrals)
               car_speed_mph fuel_cost_per_mile co2_per_mile = Inr r"
      "shape (nearest_dist r) = [n]" "shape (nearest_car_time r) = [n]"
      "wf (nearest_dist r)" "wf (nearest_car_time r)"
      "\<forall>i<n. item (nearest_dist r) [i] = min_list (map (\<lambda>k. item D [i, k]) [0..<m])"
      "\<forall>i<n. item (nearest_car_time r) [i] = min_list (map (\<lambda>k. item C [i, k]) [0..<m])"
    using nearest_metrics_ok [OF m(3) assms(3) m(4) assms(3) m(5) assms(3) assms(6),
        of car_speed_mph fuel_cost_per_mile co2_per_mile] by blast
  have entry: "item C [i, j] = item D [i, j] / car_speed_mph * 60" if "i < n" "j < m" for i j
    using that m(2,3) by (simp add: m(6) item_ufunc1)
  have scale: "item (nearest_car_time r) [i] = item (nearest_dist r) [i] / car_speed_mph * 60"
    if "i < n" for i
    using that r(6,7) row_min_rescaled [OF m(2,3) assms(3,4) that] by (simp add: m(6))
  show ?thesis
    using m(1,3,4,7) r(1-7) entry scale
    by (intro exI [of _ D] exI [of _ C] exI [of _ P] exI [of _ r]) simp
qed

theorem nearest_car_time_rescales_nearest_distance_witness:
  "\<exists>dist car pt r.
     compute_distance_time \<lparr>shape = [1, 2], dat = [0, 0]\<rparr>
         \<lparr>shape = [2, 2], dat = [0, 180, 0, 90]\<rparr> 40 25 = Inr (dist, car, pt) \<and>
     nearest_metrics (Array dist) (Array car) (Array pt) (Array \<lparr>shape = [1], dat = [100]\<rparr>)
         40 (1 / 5) (1 / 4) = Inr r \<and>
     item dist [0, 0] = 3959 * pi \<and> item dist [0, 1] = 3959 * pi / 2 \<and>
     item car [0, 0] = 3959 * pi / 40 * 60 \<and> item car [0, 1] = 3959 * pi / 2 / 40 * 60 \<and>
     item (nearest_dist r) [0] = 3959 * pi / 2 \<and>
     item (nearest_car_time r) [0] = 3959 * pi / 2 / 40 * 60"
proof -
  let ?gp = "\<lparr>shape = [1, 2], dat = [0, 0 :: real]\<rparr>"
  let ?hosp = "\<lparr>shape = [2, 2], dat = [0, 180, 0, 90 :: real]\<rparr>"
  let ?refs = "\<lparr>shape = [1], dat = [100 :: real]\<rparr>"
  have h: "shape ?gp = [1, 2]" "shape ?hosp = [2, 2]" "(0::nat) < 2" "(0::real) < 40"
      "(0::real) < 25" "shape ?refs = [1]"
    by simp_all
  have v: "haversine_miles 0 0 0 180 = 3959 * pi" "haversine_miles 0 0 0 90 = 3959 * pi / 2"
    by (simp_all add: haversine_miles_central_angle radians_def)
  have c: "item ?gp [0, 0] = 0" "item ?gp [0, 1] = 0" "item ?hosp [0, 0] = 0"
      "item ?hosp [0, 1] = 180" "item ?hosp [1, 0] = 0" "item ?hosp [1, 1] = 90"
    by (simp_all add: item_def ravel_def)
  obtain dist car pt r where r:
      "compute_distance_time ?gp ?hosp 40 25 = Inr (dist, car, pt)"
      "nearest_metrics (Array dist) (Array car) (Array pt) (Array ?refs) 40 (1 / 5) (1 / 4) = Inr r"
      "\<forall>i<1.
         (\<forall>j<2. item dist [i, j]
                    = haversine_miles (item ?gp [i, 0]) (item ?gp [i, 1])
                        (item ?hosp [j, 0]) (item ?hosp [j, 1]) \<and>
                 item car [i, j] = item dist [i, j] / 40 * 60) \<and>
         item (nearest_dist r) [i] = min_list (map (\<lambda>j. item dist [i, j]) [0..<2]) \<and>
         item (nearest_car_time r) [i] = min_list (map (\<lambda>j. item car [i, j]) [0..<2]) \<and>
         item (nearest_car_time r) [i] = item (nearest_dist r) [i] / 40 * 60"
    using nearest_car_time_rescales_nearest_distance [OF h, of "1 / 5" "1 / 4"] by blast
  have e: "item dist [0, 0] = 3959 * pi" "item dist [0, 1] = 3959 * pi / 2"
      "item car [0, 0] = 3959 * pi / 40 * 60" "item car [0, 1] = 3959 * pi / 2 / 40 * 60"
    using r(3) [rule_format, of 0, THEN conjunct1, rule_format, of 0]
      r(3) [rule_format, of 0, THEN conjunct1, rule_format, of 1] c v by simp_all
  have u: "[0..<2] = [0, 1]"
    by (simp add: numeral_2_eq_2)
  note mins = r(3) [rule_format, of 0, THEN conjunct2]
  have nd0: "item (nearest_dist r) [0] = min (item dist [0, 0]) (item dist [0, 1])"
    using mins by (simp add: u)
  have nd: "item (nearest_dist r) [0] = 3959 * pi / 2"
    unfolding nd0 e(1,2) using pi_gt_zero by (simp add: min_def)
  have nc: "item (nearest_car_time r) [0] = 3959 * pi / 2 / 40 * 60"
    using mins nd by simp
  show ?thesis
    using r(1,2) e nd nc
    by (intro exI [of _ dist] exI [of _ car] exI [of _ pt] exI [of _ r]) simp
qed

section \<open>Input validation\<close>

lemma amin_axis1_no_columns:
  "shape a = [n, 0] \<Longrightarrow> amin_axis1 a
     = Inl (ValueError ''zero-size array to reduction operation minimum which has no identity'')"
  by (simp add: amin_axis1_def)

text \<open>
  C9, as the code has it. \<open>compute_distance_time\<close> raises ValueError, before any
  computation, exactly when a coordinate array is not two-dimensional with two columns or
  a speed is not positive. An empty demand-point or site set, a coordinate array of shape
  \<open>(0, 2)\<close>, passes the validation: the three matrices are returned, with no rows or no
  columns. With no site the following \<open>nearest_metrics\<close> call raises numpy's ValueError
  from the row minimum; with at least one site, and one referral count per demand point,
  it returns, also for no demand point.
\<close>

theorem compute_distance_time_rejects_only_malformed_input:
  "(if ndim gp_coords \<noteq> 2 \<or> shape gp_coords ! 1 \<noteq> 2 \<or> ndim hosp_coords \<noteq> 2
        \<or> shape hosp_coords ! 1 \<noteq> 2 \<or> car_speed_mph \<le> 0 \<or> pt_speed_mph \<le> 0
    then \<exists>msg. compute_distance_time gp_coords hosp_coords car_speed_mph pt_speed_mph
                 = Inl (ValueError msg)
    else \<exists>dist car pt.
           compute_distance_time gp_coords hosp_coords car_speed_mph pt_speed_mph
             = Inr (dist, car, pt) \<and>
           shape dist = [shape gp_coords ! 0, shape hosp_coords ! 0] \<and>
           shape car = shape dist \<and> shape pt = shape dist \<and>
           (if shape hosp_coords ! 0 = 0
            then \<exists>msg. nearest_metrics (Array dist) (Array car) (Array pt) (Array monthly_referrals)
                          car_speed_mph fuel_cost_per_mile co2_per_mile = Inl (ValueError msg)
            else shape monthly_referrals = [shape gp_coords ! 0] \<longrightarrow>
                 (\<exists>r. nearest_metrics (Array dist) (Array car) (Array pt) (Array monthly_referrals)
                          car_speed_mph fuel_cost_per_mile co2_per_mile = Inr r \<and>
                      shape (nearest_dist r) = [shape gp_coords ! 0] \<and>
                      shape (weighted_access_score r) = [shape gp_coords ! 0])))"
proof (cases "ndim gp_coords \<noteq> 2 \<or> shape gp_coords ! 1 \<noteq> 2 \<or> ndim hosp_coords \<noteq> 2
        \<or> shape hosp_coords ! 1 \<noteq> 2 \<or> car_speed_mph \<le> 0 \<or> pt_speed_mph \<le> 0")
  case True
  then show ?thesis
    by (auto simp: compute_distance_time_def)
next
  case False
  define n where "n = shape gp_coords ! 0"
  define m where "m = shape hosp_coords ! 0"
  have two: "xs = [xs ! 0, xs ! 1]" if "length xs = 2" for xs :: "nat list"
    using that by (cases xs; cases "tl xs") auto
  have gp: "shape gp_coords = [n, 2]"
    using False two [of "shape gp_coords"] by (simp add: ndim_def n_def)
  have hosp: "shape hosp_coords = [m, 2]"
    using False two [of "shape hosp_coords"] by (simp add: ndim_def m_def)
  have speeds: "0 < car_speed_mph" "0 < pt_speed_mph"
    using False by simp_all
  obtain D C P where r: "compute_distance_time gp_coords hosp_coords car_speed_mph pt_speed_mph
        = Inr (D, C, P)" "shape D = [n, m]" "shape C = [n, m]" "shape P = [n, m]"
    using compute_distance_time_ok [OF gp hosp speeds] by blast
  have later: "\<exists>msg. nearest_metrics (Array D) (Array C) (Array P) (Array monthly_referrals)
                car_speed_mph fuel_cost_per_mile co2_per_mile = Inl (ValueError msg)" if "m = 0"
    using that r(2) by (simp add: nearest_metrics_def amin_axis1_no_columns)
  have ok: "\<exists>r. nearest_metrics (Array D) (Array C) (Array P) (Array monthly_referrals)
                car_speed_mph fuel_cost_per_mile co2_per_mile = Inr r \<and>
              shape (nearest_dist r) = [n] \<and> shape (weighted_access_score r) = [n]"
    if "m \<noteq> 0" "shape monthly_referrals = [n]"
  proof -
    have pos: "0 < m" using that(1) by simp
    show ?thesis
      using nearest_metrics_ok [OF r(2) pos r(3) pos r(4) pos that(2),
          of car_speed_mph fuel_cost_per_mile co2_per_mile]
      by blast
  qed
  show ?thesis
    using False r later ok by (simp add: n_def [symmetric] m_def [symmetric])
qed

theorem compute_distance_time_rejects_only_malformed_input_witness:
  "(\<exists>dist car pt.
      compute_distance_time \<lparr>shape = [0, 2], dat = []\<rparr>
          \<lparr>shape = [1, 2], dat = [5151 / 100, - (11 / 100)]\<rparr> 40 25 = Inr (dist, car, pt) \<and>
      shape dist = [0, 1] \<and>
      (\<exists>r. nearest_metrics (Array dist) (Array car) (Array pt) (Array \<lparr>shape = [0], dat = []\<rparr>)
              40 (1 / 5) (1 / 4) = Inr r \<and>
           shape (nearest_dist r) = [0])) \<and>
   (\<exists>dist car pt.
      compute_distance_time \<lparr>shape = [1, 2], dat = [5150 / 100, - (10 / 100)]\<rparr>
          \<lparr>shape = [0, 2], dat = []\<rparr> 40 25 = Inr (dist, car, pt) \<and>
      shape dist = [1, 0] \<and>
      (\<exists>msg. nearest_metrics (Array dist) (Array car) (Array pt) (Array \<lparr>shape = [1], dat = [100]\<rparr>)
              40 (1 / 5) (1 / 4) = Inl (ValueError msg))) \<and>
   (\<exists>msg. compute_distance_time \<lparr>shape = [2], dat = [5150 / 100, - (10 / 100)]\<rparr>
          \<lparr>shape = [1, 2], dat = [5151 / 100, - (11 / 100)]\<rparr> 40 25 = Inl (ValueError msg))"
proof -
  have a: "\<exists>dist car pt.
      compute_distance_time \<lparr>shape = [0, 2], dat = []\<rparr>
          \<lparr>shape = [1, 2], dat = [5151 / 100, - (11 / 100)]\<rparr> 40 25 = Inr (dist, car, pt) \<and>
      shape dist = [0, 1] \<and>
      (\<exists>r. nearest_metrics (Array dist) (Array car) (Array pt) (Array \<lparr>shape = [0], dat = []\<rparr>)
              40 (1 / 5) (1 / 4) = Inr r \<and>
           shape (nearest_dist r) = [0])"
    using compute_distance_time_rejects_only_malformed_input
      [of "\<lparr>shape = [0, 2], dat = []\<rparr>" "\<lparr>shape = [1, 2], dat = [5151 / 100, - (11 / 100)]\<rparr>"
          40 25 "\<lparr>shape = [0], dat = []\<rparr>" "1 / 5" "1 / 4"]
    by (simp add: ndim_def) blast
  have b: "\<exists>dist car pt.
      compute_distance_time \<lparr>shape = [1, 2], dat = [5150 / 100, - (10 / 100)]\<rparr>
          \<lparr>shape = [0, 2], dat = []\<rparr> 40 25 = Inr (dist, car, pt) \<and>
      shape dist = [1, 0] \<and>
      (\<exists>msg. nearest_metrics (Array dist) (Array car) (Array pt) (Array \<lparr>shape = [1], dat = [100]\<rparr>)
              40 (1 / 5) (1 / 4) = Inl (ValueError msg))"
    using compute_distance_time_rejects_only_malformed_input
      [of "\<lparr>shape = [1, 2], dat = [5150 / 100, - (10 / 100)]\<rparr>" "\<lparr>shape = [0, 2], dat = []\<rparr>"
          40 25 "\<lparr>shape = [1], dat = [100]\<rparr>" "1 / 5" "1 / 4"]
    by (simp add: ndim_def) blast
  have c: "\<exists>msg. compute_distance_time \<lparr>shape = [2], dat = [5150 / 100, - (10 / 100)]\<rparr>
          \<lparr>shape = [1, 2], dat = [5151 / 100, - (11 / 100)]\<rparr> 40 25 = Inl (ValueError msg)"
    using compute_distance_time_rejects_only_malformed_input
      [of "\<lparr>shape = [2], dat = [5150 / 100, - (10 / 100)]\<rparr>"
          "\<lparr>shape = [1, 2], dat = [5151 / 100, - (11 / 100)]\<rparr>" 40 25]
    by (simp add: ndim_def)
  show ?thesis
    using a b c by blast
qed

text \<open>
  C9, as the specification states it, fails: neither an empty demand-point set nor an
  empty site set is rejected by \<open>compute_distance_time\<close>.
\<close>

theorem empty_sets_pass_validation_counterexample:
  "compute_distance_time \<lparr>shape = [0, 2], dat = []\<rparr> \<lparr>shape = [1, 2], dat = [5151 / 100, - (11 / 100)]\<rparr> 40 25
     = Inr (\<lparr>shape = [0, 1], dat = []\<rparr>, \<lparr>shape = [0, 1], dat = []\<rparr>, \<lparr>shape = [0, 1], dat = []\<rparr>) \<and>
   compute_distance_time \<lparr>shape = [1, 2], dat = [5150 / 100, - (10 / 100)]\<rparr> \<lparr>shape = [0, 2], dat = []\<rparr> 40 25
     = Inr (\<lparr>shape = [1, 0], dat = []\<rparr>, \<lparr>shape = [1, 0], dat = []\<rparr>, \<lparr>shape = [1, 0], dat = []\<rparr>)"
  by (simp add: compute_distance_time_def ndim_def column_def newaxis_after_def newaxis_before_def
      haversine_np_def ufunc1_def ufunc2_def compatible_def broadcast_shape_def pad_shape_def
      from_fun_def bdim_def Let_def)

section \<open>The baseline comparison and the hospital summary\<close>

lemma item_1d: "shape c = [n] \<Longrightarrow> item c [i] = dat c ! i"
  by (simp add: item_def ravel_def)

lemma asum_1d:
  assumes "wf c" "shape c = [n]"
  shows "asum c = (\<Sum>i<n. item c [i])"
proof -
  have "length (dat c) = n" using assms by (simp add: wf_def)
  then show ?thesis
    using sum_list_sum_nth [of "dat c"] assms(2)
    by (simp add: asum_def item_1d atLeast0LessThan)
qed

lemma wf_referrals_column [simp]: "wf (referrals_column df)"
  by (simp add: wf_def referrals_column_def)

lemma shape_referrals_column [simp]: "shape (referrals_column df) = [length df]"
  by (simp add: referrals_column_def)

lemma item_referrals_column:
  "i < length df \<Longrightarrow> item (referrals_column df) [i] = Referrals (df ! i)"
  by (simp add: item_def ravel_def referrals_column_def)

lemma comprehension_Inr:
  "(\<And>x. x \<in> set xs \<Longrightarrow> f x = Inr (g x)) \<Longrightarrow> comprehension f xs = Inr (map g xs)"
  by (induction xs) simp_all

lemma weighted_demand_ok:
  assumes "shape time = [length gp_df, m]" "j < m"
  shows "weighted_demand time gp_df j
           = Inr (\<Sum>i<length gp_df. item time [i, j] * Referrals (gp_df ! i))"
proof -
  obtain c where c: "column time j = Inr c" "wf c" "shape c = [length gp_df]"
      "\<forall>i<length gp_df. item c [i] = item time [i, j]"
    using column_2d [OF assms] by blast
  obtain w where w: "ufunc2 (*) c (referrals_column gp_df) = Inr w" "wf w"
      "shape w = [length gp_df]"
      "\<forall>i<length gp_df. item w [i] = item c [i] * item (referrals_column gp_df) [i]"
    using ufunc2_same_1d [OF c(3) shape_referrals_column] by blast
  have "asum w = (\<Sum>i<length gp_df. item time [i, j] * Referrals (gp_df ! i))"
    using w(4) c(4) by (simp add: asum_1d [OF w(2,3)] item_referrals_column)
  then show ?thesis
    by (simp add: weighted_demand_def c(1) w(1))
qed

lemma argmin_from_bound: "mi < i \<Longrightarrow> argmin_from mp mi i xs < i + length xs"
proof (induction xs arbitrary: mp mi i)
  case Nil
  then show ?case by simp
next
  case (Cons y ys)
  have "argmin_from y i (Suc i) ys < Suc i + length ys"
    by (rule Cons.IH) simp
  moreover have "argmin_from mp mi (Suc i) ys < Suc i + length ys"
    using Cons.prems by (intro Cons.IH) simp
  ultimately show ?case by simp
qed

lemma argmin_from_least:
  "\<lbrakk>mi < i; length pre = i; pre ! mi = mp; \<forall>x \<in> set pre. mp \<le> x\<rbrakk>
     \<Longrightarrow> \<forall>x \<in> set (pre @ xs). (pre @ xs) ! argmin_from mp mi i xs \<le> x"
proof (induction xs arbitrary: mp mi i pre)
  case Nil
  then show ?case by simp
next
  case (Cons y ys)
  show ?case
  proof (cases "y < mp")
    case True
    have "\<forall>x \<in> set ((pre @ [y]) @ ys). ((pre @ [y]) @ ys) ! argmin_from y i (Suc i) ys \<le> x"
      using Cons.prems True by (intro Cons.IH) (auto simp: nth_append)
    then show ?thesis using True by simp
  next
    case False
    have "\<forall>x \<in> set ((pre @ [y]) @ ys). ((pre @ [y]) @ ys) ! argmin_from mp mi (Suc i) ys \<le> x"
      using Cons.prems False by (intro Cons.IH) (auto simp: nth_append)
    then show ?thesis using False by simp
  qed
qed

lemma argmin_list_bound: "xs \<noteq> [] \<Longrightarrow> argmin_list xs < length xs"
  using argmin_from_bound [of 0 1] by (cases xs) auto

lemma argmin_list_least: "x \<in> set xs \<Longrightarrow> xs ! argmin_list xs \<le> x"
proof (cases xs)
  case Nil
  then show "x \<in> set xs \<Longrightarrow> ?thesis" by simp
next
  case (Cons y ys)
  have "\<forall>x \<in> set ([y] @ ys). ([y] @ ys) ! argmin_from y 0 1 ys \<le> x"
    by (intro argmin_from_least) simp_all
  then show "x \<in> set xs \<Longrightarrow> ?thesis" using Cons by auto
qed

lemma wrap_int64_absorb: "wrap_int64 (wrap_int64 a + b) = wrap_int64 (a + b)"
proof -
  have "((a + 2 ^ 63) mod 2 ^ 64 - 2 ^ 63 + b + 2 ^ 63) mod (2 ^ 64 :: int)
          = ((a + 2 ^ 63) mod 2 ^ 64 + b) mod 2 ^ 64"
    by (simp add: algebra_simps)
  also have "\<dots> = (a + 2 ^ 63 + b) mod 2 ^ 64"
    by (rule mod_add_left_eq)
  also have "\<dots> = (a + b + 2 ^ 63) mod 2 ^ 64"
    by (simp add: algebra_simps)
  finally show ?thesis
    by (simp only: wrap_int64_def)
qed

lemma wrap_int64_id: "- (2 ^ 63) \<le> k \<Longrightarrow> k < 2 ^ 63 \<Longrightarrow> wrap_int64 k = k"
  by (simp add: wrap_int64_def)

lemma foldl_wrap_int64:
  "foldl (\<lambda>acc x. wrap_int64 (acc + x)) (wrap_int64 a) xs = wrap_int64 (a + sum_list xs)"
proof (induction xs arbitrary: a)
  case Nil
  show ?case by simp
next
  case (Cons x xs)
  show ?case
    using Cons.IH [of "a + x"] by (simp add: wrap_int64_absorb add.assoc)
qed

lemma int64_sum_wrap: "int64_sum xs = wrap_int64 (sum_list xs)"
  using foldl_wrap_int64 [of 0 xs] by (simp add: int64_sum_def wrap_int64_def)

lemma wrap_int64_absorb_right: "wrap_int64 (a + wrap_int64 b) = wrap_int64 (a + b)"
  using wrap_int64_absorb [of b a] by (simp add: add.commute)

lemma wrap_int64_sum_list: "wrap_int64 (sum_list (map wrap_int64 xs)) = wrap_int64 (sum_list xs)"
proof (induction xs)
  case Nil
  show ?case by simp
next
  case (Cons x xs)
  have "wrap_int64 (wrap_int64 x + sum_list (map wrap_int64 xs))
      = wrap_int64 (x + sum_list (map wrap_int64 xs))"
    by (rule wrap_int64_absorb)
  also have "\<dots> = wrap_int64 (x + wrap_int64 (sum_list (map wrap_int64 xs)))"
    by (rule wrap_int64_absorb_right [symmetric])
  also have "\<dots> = wrap_int64 (x + wrap_int64 (sum_list xs))"
    by (simp only: Cons.IH)
  also have "\<dots> = wrap_int64 (x + sum_list xs)"
    by (rule wrap_int64_absorb_right)
  finally show ?case by simp
qed

lemma selected_rows:
  assumes "length ks = length rows"
  shows "map (Referrals \<circ> snd) (filter fst (zip (map (\<lambda>k. k = j) ks) rows))
           = map (\<lambda>i. Referrals (rows ! i)) (filter (\<lambda>i. ks ! i = (j::nat)) [0..<length rows])"
proof -
  have z: "zip (map (\<lambda>k. k = j) ks) rows = map (\<lambda>i. (ks ! i = j, rows ! i)) [0..<length rows]"
    using assms by (intro nth_equalityI) simp_all
  show ?thesis
    by (simp add: z filter_map o_def)
qed

lemma sum_list_selected:
  "sum_list (map f (filter P [0..<n])) = (\<Sum>i<n. if P i then f i else (0::'a::comm_monoid_add))"
  by (simp add: sum_list_map_filter' interv_sum_list_conv_sum_set_nat atLeast0LessThan)

lemma loc_sum_ok:
  assumes "wf idx" "shape idx = [length gp_df]"
  shows "loc_sum dt float64_sum (ufunc1 (\<lambda>k. k = j) idx) gp_df
           = Inr (series_sum dt float64_sum (referrals_assigned_to idx gp_df j))"
proof -
  have len: "length (dat idx) = length gp_df"
    using assms by (simp add: wf_def)
  have "map (Referrals \<circ> snd) (filter fst (zip (map (\<lambda>k. k = j) (dat idx)) gp_df))
      = referrals_assigned_to idx gp_df j"
    using selected_rows [OF len, of j] assms(2)
    by (simp add: referrals_assigned_to_def item_1d)
  then show ?thesis
    using len by (simp add: loc_sum_def ufunc1_def)
qed

lemma series_sum_Int64:
  "series_sum Int64 float64_sum (referrals_assigned_to idx gp_df j)
     = of_int (wrap_int64 (\<Sum>i<length gp_df.
                 if item idx [i] = j then \<lfloor>Referrals (gp_df ! i)\<rfloor> else 0))"
  by (simp add: series_sum_def int64_sum_wrap referrals_assigned_to_def o_def sum_list_selected)

lemma series_sum_Float64:
  "series_sum Float64 float64_sum xs = float64_sum xs"
  by (simp add: series_sum_def)

lemma partition_total:
  fixes r :: "nat \<Rightarrow> 'a::comm_monoid_add"
  assumes "\<And>i. i < n \<Longrightarrow> idx i < (m::nat)"
  shows "(\<Sum>j<m. \<Sum>i<n. if idx i = j then r i else 0) = (\<Sum>i<n. r i)"
proof -
  have "(\<Sum>j<m. \<Sum>i<n. if idx i = j then r i else 0)
          = (\<Sum>i<n. \<Sum>j<m. if idx i = j then r i else 0)"
    by (rule sum.swap)
  also have "\<dots> = (\<Sum>i<n. r i)"
    using assms by (intro sum.cong refl) simp
  finally show ?thesis .
qed

lemma sum_list_upt: "sum_list (map f [0..<n]) = (\<Sum>i<n. f i :: 'a::comm_monoid_add)"
  by (simp add: interv_sum_list_conv_sum_set_nat atLeast0LessThan)

lemma map_nth_upt: "map (\<lambda>i. f (xs ! i)) [0..<length xs] = map f xs"
  by (intro nth_equalityI) simp_all

lemma int64_partition:
  assumes "\<And>i. i < n \<Longrightarrow> idx i < (m::nat)"
  shows "int64_sum (map (\<lambda>j. wrap_int64 (\<Sum>i<n. if idx i = j then f i else 0)) [0..<m])
           = int64_sum (map f [0..<n])"
proof -
  let ?S = "\<lambda>j. \<Sum>i<n. if idx i = j then f i else 0"
  have "int64_sum (map (\<lambda>j. wrap_int64 (?S j)) [0..<m])
      = wrap_int64 (sum_list (map wrap_int64 (map ?S [0..<m])))"
    by (simp add: int64_sum_wrap o_def)
  also have "\<dots> = wrap_int64 (sum_list (map ?S [0..<m]))"
    by (rule wrap_int64_sum_list)
  also have "sum_list (map ?S [0..<m]) = (\<Sum>j<m. ?S j)"
    by (rule sum_list_upt)
  also have "\<dots> = (\<Sum>i<n. f i)"
    by (rule partition_total) (rule assms)
  also have "\<dots> = sum_list (map f [0..<n])"
    by (rule sum_list_upt [symmetric])
  finally show ?thesis
    by (simp add: int64_sum_wrap)
qed

lemma int64_exact:
  assumes "\<And>i. i < n \<Longrightarrow> 0 \<le> f i" "(\<Sum>i<n. f i) < 2 ^ 63"
  shows "wrap_int64 (\<Sum>i<n. if idx i = (j::nat) then f i else 0)
           = (\<Sum>i<n. if idx i = j then f i else 0)"
proof -
  let ?S = "\<Sum>i<n. if idx i = j then f i else 0"
  have "0 \<le> ?S"
    using assms(1) by (intro sum_nonneg) simp
  moreover have "?S \<le> (\<Sum>i<n. f i)"
    using assms(1) by (intro sum_mono) simp
  ultimately show ?thesis
    using assms(2) by (intro wrap_int64_id) simp_all
qed

lemma hospital_summary_ok:
  assumes car: "shape car_time = [length gp_df, length hospital_df]"
    and pt: "shape pt_time = [length gp_df, length hospital_df]"
    and sites: "hospital_df \<noteq> []"
  shows "\<exists>idx. argmin_axis1 car_time = Inr idx \<and> wf idx \<and> shape idx = [length gp_df] \<and>
           (\<forall>i<length gp_df. item idx [i]
               = argmin_list (map (\<lambda>k. item car_time [i, k]) [0..<length hospital_df])) \<and>
           hospital_summary dt float64_sum hospital_df gp_df car_time pt_time
             = Inr \<lparr>Hospital = map Description hospital_df,
                    Total_Referrals_Assigned =
                      map (\<lambda>j. series_sum dt float64_sum (referrals_assigned_to idx gp_df j))
                        [0..<length hospital_df],
                    Total_Weighted_Demand_Car =
                      map (\<lambda>j. \<Sum>i<length gp_df. item car_time [i, j] * Referrals (gp_df ! i))
                        [0..<length hospital_df],
                    Total_Weighted_Demand_PT =
                      map (\<lambda>j. \<Sum>i<length gp_df. item pt_time [i, j] * Referrals (gp_df ! i))
                        [0..<length hospital_df]\<rparr>"
proof -
  have pos: "0 < length hospital_df" using sites by simp
  obtain idx where idx: "argmin_axis1 car_time = Inr idx" "wf idx" "shape idx = [length gp_df]"
      "\<forall>i<length gp_df. item idx [i]
          = argmin_list (map (\<lambda>k. item car_time [i, k]) [0..<length hospital_df])"
    using argmin_axis1_2d [OF car pos] by blast
  have a: "comprehension (\<lambda>i. loc_sum dt float64_sum (ufunc1 (\<lambda>k. k = i) idx) gp_df)
        [0..<length hospital_df]
      = Inr (map (\<lambda>j. series_sum dt float64_sum (referrals_assigned_to idx gp_df j))
               [0..<length hospital_df])"
    by (rule comprehension_Inr) (rule loc_sum_ok [OF idx(2,3)])
  have c: "comprehension (weighted_demand car_time gp_df) [0..<length hospital_df]
      = Inr (map (\<lambda>j. \<Sum>i<length gp_df. item car_time [i, j] * Referrals (gp_df ! i))
               [0..<length hospital_df])"
    by (rule comprehension_Inr) (simp add: weighted_demand_ok [OF car])
  have p: "comprehension (weighted_demand pt_time gp_df) [0..<length hospital_df]
      = Inr (map (\<lambda>j. \<Sum>i<length gp_df. item pt_time [i, j] * Referrals (gp_df ! i))
               [0..<length hospital_df])"
    by (rule comprehension_Inr) (simp add: weighted_demand_ok [OF pt])
  show ?thesis
    using idx by (intro exI [of _ idx]) (simp add: hospital_summary_def a c p)
qed

lemma argmin_index_ok:
  assumes "0 < m" "v = argmin_list (map f [0..<m])"
  shows "v < m \<and> (\<forall>j<m. f v \<le> f j)"
proof -
  let ?row = "map f [0..<m]"
  have b: "argmin_list ?row < m"
    using argmin_list_bound [of ?row] assms(1) by simp
  have "?row ! argmin_list ?row \<le> f j" if "j < m" for j
    using that by (intro argmin_list_least) simp
  then show ?thesis
    using b assms(2) by simp
qed

lemma assigned_exact_sum:
  "sum_list (referrals_assigned_to idx gp_df j)
     = (\<Sum>i<length gp_df. if item idx [i] = j then Referrals (gp_df ! i) else 0)"
  by (simp add: referrals_assigned_to_def sum_list_selected)

lemma sum_list_Referrals: "sum_list (map Referrals gp_df) = (\<Sum>i<length gp_df. Referrals (gp_df ! i))"
  using sum_list_upt [of "\<lambda>i. Referrals (gp_df ! i)" "length gp_df"]
  by (simp add: map_nth_upt)

text \<open>
  C3, as the code has it. For a site set that is not empty and any demand-point set,
  \<open>np.argmin\<close> over the car times gives every demand point one site index in range, a
  site of least car time in the point's row. The referrals assigned to a site are the
  pandas sum of the \<open>Referrals\<close> of the points with that index. For an int64 column this
  is the sum modulo \<open>2 ^ 64\<close>, read as a signed number, and the int64 sum of the assigned
  referrals over the sites is the int64 sum of the referrals of all demand points; when
  the referrals are whole, not negative and add up to less than \<open>2 ^ 63\<close>, no sum wraps
  around and the assigned referrals of all sites add up to the referrals of all demand
  points. For a float64 column the assigned referrals are numpy's float sums, and they add
  up to the referrals of all demand points when no sum of a site is rounded.
\<close>

theorem assigned_referrals_partition:
  assumes "shape car_time = [length gp_df, length hospital_df]"
    and "shape pt_time = [length gp_df, length hospital_df]"
    and "hospital_df \<noteq> []"
  shows "\<exists>idx s. argmin_axis1 car_time = Inr idx \<and>
           hospital_summary dt float64_sum hospital_df gp_df car_time pt_time = Inr s \<and>
           (\<forall>i<length gp_df.
              item idx [i] < length hospital_df \<and>
              (\<forall>j<length hospital_df. item car_time [i, item idx [i]] \<le> item car_time [i, j])) \<and>
           length (Total_Referrals_Assigned s) = length hospital_df \<and>
           (dt = Int64 \<longrightarrow>
              (\<forall>j<length hospital_df.
                 Total_Referrals_Assigned s ! j
                   = of_int (wrap_int64 (\<Sum>i<length gp_df.
                       if item idx [i] = j then \<lfloor>Referrals (gp_df ! i)\<rfloor> else 0))) \<and>
              int64_sum (map floor (Total_Referrals_Assigned s))
                = int64_sum (map (\<lambda>r. \<lfloor>Referrals r\<rfloor>) gp_df) \<and>
              ((\<forall>r \<in> set gp_df. Referrals r \<in> \<int> \<and> 0 \<le> Referrals r) \<and>
               sum_list (map Referrals gp_df) < 2 ^ 63 \<longrightarrow>
                 (\<forall>j<length hospital_df.
                    Total_Referrals_Assigned s ! j
                      = (\<Sum>i<length gp_df.
                           if item idx [i] = j then Referrals (gp_df ! i) else 0)) \<and>
                 sum_list (Total_Referrals_Assigned s) = sum_list (map Referrals gp_df))) \<and>
           (dt = Float64 \<longrightarrow>
              (\<forall>j<length hospital_df.
                 Total_Referrals_Assigned s ! j
                   = float64_sum (referrals_assigned_to idx gp_df j)) \<and>
              ((\<forall>j<length hospital_df.
                  float64_sum (referrals_assigned_to idx gp_df j)
                    = sum_list (referrals_assigned_to idx gp_df j)) \<longrightarrow>
                 sum_list (Total_Referrals_Assigned s) = sum_list (map Referrals gp_df)))"
proof -
  let ?n = "length gp_df" and ?m = "length hospital_df"
  let ?row = "\<lambda>i. map (\<lambda>k. item car_time [i, k]) [0..<?m]"
  have pos: "0 < ?m" using assms(3) by simp
  obtain idx s where r: "argmin_axis1 car_time = Inr idx"
      "\<forall>i<?n. item idx [i] = argmin_list (?row i)"
      "hospital_summary dt float64_sum hospital_df gp_df car_time pt_time = Inr s"
      "Total_Referrals_Assigned s
         = map (\<lambda>j. series_sum dt float64_sum (referrals_assigned_to idx gp_df j)) [0..<?m]"
    using hospital_summary_ok [OF assms, of dt float64_sum] by force
  let ?A = "Total_Referrals_Assigned s"
  let ?f = "\<lambda>i. \<lfloor>Referrals (gp_df ! i)\<rfloor>"
  let ?S = "\<lambda>j. \<Sum>i<?n. if item idx [i] = j then ?f i else 0"
  let ?E = "\<lambda>j. \<Sum>i<?n. if item idx [i] = j then Referrals (gp_df ! i) else 0"
  have am: "item idx [i] < ?m \<and> (\<forall>j<?m. item car_time [i, item idx [i]] \<le> item car_time [i, j])"
    if "i < ?n" for i
    using that r(2) by (intro argmin_index_ok [OF pos]) simp
  then have rng: "item idx [i] < ?m" if "i < ?n" for i
    using that by simp
  have len: "length ?A = ?m"
    by (simp add: r(4))
  have total: "(\<Sum>j<?m. ?E j) = sum_list (map Referrals gp_df)"
    using partition_total [of ?n "\<lambda>i. item idx [i]" ?m "\<lambda>i. Referrals (gp_df ! i)"] rng
    by (simp add: sum_list_Referrals)
  have int_site: "?A ! j = of_int (wrap_int64 (?S j))" if "dt = Int64" "j < ?m" for j
    using that by (simp add: r(4) series_sum_Int64)
  have int_total: "int64_sum (map floor ?A) = int64_sum (map (\<lambda>r. \<lfloor>Referrals r\<rfloor>) gp_df)"
    if "dt = Int64"
  proof -
    have "map floor ?A = map (\<lambda>j. wrap_int64 (?S j)) [0..<?m]"
      using that by (simp add: r(4) series_sum_Int64 o_def)
    then have "int64_sum (map floor ?A) = int64_sum (map ?f [0..<?n])"
      using int64_partition [of ?n "\<lambda>i. item idx [i]" ?m ?f] rng by simp
    then show ?thesis
      using map_nth_upt [of "\<lambda>r. \<lfloor>Referrals r\<rfloor>" gp_df] by simp
  qed
  have int_exact: "(\<forall>j<?m. ?A ! j = ?E j) \<and> sum_list ?A = sum_list (map Referrals gp_df)"
    if dt: "dt = Int64" and whole: "\<forall>r \<in> set gp_df. Referrals r \<in> \<int> \<and> 0 \<le> Referrals r"
      and small: "sum_list (map Referrals gp_df) < 2 ^ 63"
  proof -
    have w: "of_int (?f i) = Referrals (gp_df ! i)" "0 \<le> ?f i" if "i < ?n" for i
      using whole that by (auto simp: Ints_def)
    have "real_of_int (\<Sum>i<?n. ?f i) = (\<Sum>i<?n. real_of_int (?f i))"
      by (rule of_int_sum)
    also have "\<dots> = (\<Sum>i<?n. Referrals (gp_df ! i))"
      by (intro sum.cong refl w(1)) simp
    finally have "real_of_int (\<Sum>i<?n. ?f i) < 2 ^ 63"
      using small by (simp only: sum_list_Referrals)
    then have bound: "(\<Sum>i<?n. ?f i) < 2 ^ 63"
      by (metis of_int_less_iff of_int_numeral of_int_power)
    have "?A ! j = ?E j" if "j < ?m" for j
    proof -
      have "?A ! j = of_int (?S j)"
        using int_site [OF dt that] int64_exact [of ?n ?f "\<lambda>i. item idx [i]" j] w(2) bound
        by simp
      also have "\<dots> = (\<Sum>i<?n. real_of_int (if item idx [i] = j then ?f i else 0))"
        by (rule of_int_sum)
      also have "\<dots> = ?E j"
      proof (intro sum.cong refl)
        fix i assume "i \<in> {..<?n}"
        then have "real_of_int (?f i) = Referrals (gp_df ! i)"
          by (intro w(1)) simp
        then show "real_of_int (if item idx [i] = j then ?f i else 0)
            = (if item idx [i] = j then Referrals (gp_df ! i) else 0)"
          by (simp only: if_distrib [of real_of_int] of_int_0 cong: if_cong)
      qed
      finally show ?thesis .
    qed
    then have sites: "\<forall>j<?m. ?A ! j = ?E j" by simp
    have "sum_list ?A = (\<Sum>j<?m. ?A ! j)"
      using sum_list_sum_nth [of ?A] len by (simp add: atLeast0LessThan)
    also have "\<dots> = (\<Sum>j<?m. ?E j)"
      using sites by simp
    finally show ?thesis
      using sites total by simp
  qed
  have float_site: "?A ! j = float64_sum (referrals_assigned_to idx gp_df j)"
    if "dt = Float64" "j < ?m" for j
    using that by (simp add: r(4) series_sum_Float64)
  have float_exact: "sum_list ?A = sum_list (map Referrals gp_df)"
    if dt: "dt = Float64"
      and ex: "\<forall>j<?m. float64_sum (referrals_assigned_to idx gp_df j)
                 = sum_list (referrals_assigned_to idx gp_df j)"
  proof -
    have "sum_list ?A = (\<Sum>j<?m. ?A ! j)"
      using sum_list_sum_nth [of ?A] len by (simp add: atLeast0LessThan)
    also have "\<dots> = (\<Sum>j<?m. ?E j)"
      using float_site [OF dt] ex by (simp add: assigned_exact_sum)
    finally show ?thesis
      using total by simp
  qed
  show ?thesis
    using r(1,3) am len int_site int_total int_exact float_site float_exact
    by (intro exI [of _ idx] exI [of _ s]) blast
qed

theorem assigned_referrals_partition_witness:
  "(\<exists>idx s.
     argmin_axis1 \<lparr>shape = [2, 2], dat = [2, 5, 7, 3]\<rparr> = Inr idx \<and>
     hospital_summary Int64 sum_list
       [\<lparr>Description = ''Site A'', result_latitude = 5151 / 100, result_longitude = - (11 / 100),
          Referrals = 0\<rparr>,
        \<lparr>Description = ''Site B'', result_latitude = 516 / 10, result_longitude = - (2 / 10),
          Referrals = 0\<rparr>]
       [\<lparr>Description = ''GP 1'', result_latitude = 515 / 10, result_longitude = - (1 / 10),
          Referrals = 100\<rparr>,
        \<lparr>Description = ''GP 2'', result_latitude = 5152 / 100, result_longitude = - (12 / 100),
          Referrals = 50\<rparr>]
       \<lparr>shape = [2, 2], dat = [2, 5, 7, 3]\<rparr> \<lparr>shape = [2, 2], dat = [4, 10, 14, 6]\<rparr> = Inr s \<and>
     item idx [0] = 0 \<and> item idx [1] = 1 \<and>
     length (Total_Referrals_Assigned s) = 2 \<and>
     Total_Referrals_Assigned s ! 0 = 100 \<and> Total_Referrals_Assigned s ! 1 = 50 \<and>
     sum_list (Total_Referrals_Assigned s) = 150) \<and>
   (\<exists>idx s.
     argmin_axis1 \<lparr>shape = [2, 2], dat = [2, 5, 7, 3]\<rparr> = Inr idx \<and>
     hospital_summary Float64 sum_list
       [\<lparr>Description = ''Site A'', result_latitude = 5151 / 100, result_longitude = - (11 / 100),
          Referrals = 0\<rparr>,
        \<lparr>Description = ''Site B'', result_latitude = 516 / 10, result_longitude = - (2 / 10),
          Referrals = 0\<rparr>]
       [\<lparr>Description = ''GP 1'', result_latitude = 515 / 10, result_longitude = - (1 / 10),
          Referrals = 100\<rparr>,
        \<lparr>Description = ''GP 2'', result_latitude = 5152 / 100, result_longitude = - (12 / 100),
          Referrals = 50\<rparr>]
       \<lparr>shape = [2, 2], dat = [2, 5, 7, 3]\<rparr> \<lparr>shape = [2, 2], dat = [4, 10, 14, 6]\<rparr> = Inr s \<and>
     sum_list (Total_Referrals_Assigned s) = 150)"
proof -
  let ?hospital_df =
    "[\<lparr>Description = ''Site A'', result_latitude = 5151 / 100, result_longitude = - (11 / 100),
          Referrals = 0\<rparr>,
        \<lparr>Description = ''Site B'', result_latitude = 516 / 10, result_longitude = - (2 / 10),
          Referrals = 0\<rparr>]"
  let ?gp_df =
    "[\<lparr>Description = ''GP 1'', result_latitude = 515 / 10, result_longitude = - (1 / 10),
          Referrals = 100\<rparr>,
        \<lparr>Description = ''GP 2'', result_latitude = 5152 / 100, result_longitude = - (12 / 100),
          Referrals = 50\<rparr>]"
  let ?car = "\<lparr>shape = [2, 2], dat = [2, 5, 7, 3 :: real]\<rparr>"
  let ?pt = "\<lparr>shape = [2, 2], dat = [4, 10, 14, 6 :: real]\<rparr>"
  have h: "shape ?car = [length ?gp_df, length ?hospital_df]"
      "shape ?pt = [length ?gp_df, length ?hospital_df]"
      "?hospital_df \<noteq> []"
    by simp_all
  have whole: "(\<forall>r \<in> set ?gp_df. Referrals r \<in> \<int> \<and> 0 \<le> Referrals r) \<and>
      sum_list (map Referrals ?gp_df) < 2 ^ 63"
    by simp
  have two: "{..<2::nat} = {0, 1}" by auto
  obtain idx s where r:
      "argmin_axis1 ?car = Inr idx"
      "hospital_summary Int64 sum_list ?hospital_df ?gp_df ?car ?pt = Inr s"
      "\<forall>i<length ?gp_df. item idx [i] < length ?hospital_df \<and>
         (\<forall>j<length ?hospital_df. item ?car [i, item idx [i]] \<le> item ?car [i, j])"
      "length (Total_Referrals_Assigned s) = length ?hospital_df"
      "\<forall>j<length ?hospital_df.
         Total_Referrals_Assigned s ! j
           = (\<Sum>i<length ?gp_df. if item idx [i] = j then Referrals (?gp_df ! i) else 0)"
      "sum_list (Total_Referrals_Assigned s) = sum_list (map Referrals ?gp_df)"
    using assigned_referrals_partition [OF h, of Int64 sum_list] whole by blast
  have i0: "item idx [0] = 0"
  proof -
    have "item idx [0] < 2" "item ?car [0, item idx [0]] \<le> item ?car [0, 0]"
      using r(3) [rule_format, of 0] by simp_all
    then show ?thesis
      by (cases "item idx [0] = 0") (auto simp: item_def ravel_def less_Suc_eq numeral_2_eq_2)
  qed
  have i1: "item idx [1] = 1"
  proof -
    have "item idx [1] < 2" "item ?car [1, item idx [1]] \<le> item ?car [1, 1]"
      using r(3) [rule_format, of 1] by simp_all
    then show ?thesis
      by (cases "item idx [1] = 0") (auto simp: item_def ravel_def less_Suc_eq numeral_2_eq_2)
  qed
  have a: "Total_Referrals_Assigned s ! 0 = 100" "Total_Referrals_Assigned s ! 1 = 50"
    using r(5) [rule_format, of 0] r(5) [rule_format, of 1] i0 i1 by (simp_all add: two)
  have first: "\<exists>idx s.
     argmin_axis1 ?car = Inr idx \<and>
     hospital_summary Int64 sum_list ?hospital_df ?gp_df ?car ?pt = Inr s \<and>
     item idx [0] = 0 \<and> item idx [1] = 1 \<and>
     length (Total_Referrals_Assigned s) = 2 \<and>
     Total_Referrals_Assigned s ! 0 = 100 \<and> Total_Referrals_Assigned s ! 1 = 50 \<and>
     sum_list (Total_Referrals_Assigned s) = 150"
    using r(1,2,4,6) i0 i1 a by (intro exI [of _ idx] exI [of _ s]) simp
  obtain idx' s' where r':
      "argmin_axis1 ?car = Inr idx'"
      "hospital_summary Float64 sum_list ?hospital_df ?gp_df ?car ?pt = Inr s'"
      "(\<forall>j<length ?hospital_df.
          sum_list (referrals_assigned_to idx' ?gp_df j)
            = sum_list (referrals_assigned_to idx' ?gp_df j)) \<longrightarrow>
         sum_list (Total_Referrals_Assigned s') = sum_list (map Referrals ?gp_df)"
    using assigned_referrals_partition [OF h, of Float64 sum_list] by blast
  have second: "\<exists>idx s.
     argmin_axis1 ?car = Inr idx \<and>
     hospital_summary Float64 sum_list ?hospital_df ?gp_df ?car ?pt = Inr s \<and>
     sum_list (Total_Referrals_Assigned s) = 150"
    using r' by (intro exI [of _ idx'] exI [of _ s']) simp
  show ?thesis
    using first second by (rule conjI)
qed

text \<open>
  C3, as the specification states it, fails: with two demand points of \<open>2 ^ 62\<close> referrals
  each and one site, the int64 sum wraps around, the site is assigned \<open>- 2 ^ 63\<close> referrals
  and the demand points have \<open>2 ^ 63\<close>.
\<close>

theorem assigned_referrals_overflow_counterexample:
  "\<exists>s. hospital_summary Int64 sum_list
          [\<lparr>Description = ''Site A'', result_latitude = 5151 / 100,
             result_longitude = - (11 / 100), Referrals = 0\<rparr>]
          [\<lparr>Description = ''GP 1'', result_latitude = 515 / 10, result_longitude = - (1 / 10),
             Referrals = 2 ^ 62\<rparr>,
           \<lparr>Description = ''GP 2'', result_latitude = 5152 / 100, result_longitude = - (12 / 100),
             Referrals = 2 ^ 62\<rparr>]
          \<lparr>shape = [2, 1], dat = [2, 7]\<rparr> \<lparr>shape = [2, 1], dat = [4, 14]\<rparr> = Inr s \<and>
        Total_Referrals_Assigned s = [- (2 ^ 63)] \<and>
        sum_list (Total_Referrals_Assigned s)
          \<noteq> sum_list (map Referrals
                [\<lparr>Description = ''GP 1'', result_latitude = 515 / 10,
                   result_longitude = - (1 / 10), Referrals = 2 ^ 62\<rparr>,
                 \<lparr>Description = ''GP 2'', result_latitude = 5152 / 100,
                   result_longitude = - (12 / 100), Referrals = 2 ^ 62\<rparr>])"
proof -
  let ?hospital_df = "[\<lparr>Description = ''Site A'', result_latitude = 5151 / 100,
             result_longitude = - (11 / 100), Referrals = 0\<rparr>]"
  let ?gp_df = "[\<lparr>Description = ''GP 1'', result_latitude = 515 / 10,
                   result_longitude = - (1 / 10), Referrals = 2 ^ 62\<rparr>,
                 \<lparr>Description = ''GP 2'', result_latitude = 5152 / 100,
                   result_longitude = - (12 / 100), Referrals = 2 ^ 62\<rparr>]"
  let ?car = "\<lparr>shape = [2, 1], dat = [2, 7 :: real]\<rparr>"
  let ?pt = "\<lparr>shape = [2, 1], dat = [4, 14 :: real]\<rparr>"
  have h: "shape ?car = [length ?gp_df, length ?hospital_df]"
      "shape ?pt = [length ?gp_df, length ?hospital_df]" "?hospital_df \<noteq> []"
    by simp_all
  obtain idx s where r:
      "\<forall>i<length ?gp_df. item idx [i]
          = argmin_list (map (\<lambda>k. item ?car [i, k]) [0..<length ?hospital_df])"
      "hospital_summary Int64 sum_list ?hospital_df ?gp_df ?car ?pt = Inr s"
      "Total_Referrals_Assigned s
         = map (\<lambda>j. series_sum Int64 sum_list (referrals_assigned_to idx ?gp_df j))
             [0..<length ?hospital_df]"
    using hospital_summary_ok [OF h, of Int64 sum_list] by force
  have idx: "item idx [0] = 0" "item idx [1] = 0"
    using r(1) [rule_format, of 0] r(1) [rule_format, of 1] by simp_all
  have two: "{..<2::nat} = {0, 1}" by auto
  have "Total_Referrals_Assigned s = [of_int (wrap_int64 (2 ^ 63))]"
    using idx by (simp add: r(3) series_sum_Int64 two)
  also have "wrap_int64 (2 ^ 63) = - (2 ^ 63)"
    by (simp add: wrap_int64_def)
  finally have a: "Total_Referrals_Assigned s = [- (2 ^ 63)]"
    by simp
  show ?thesis
    using r(2) a by (intro exI [of _ s]) simp
qed

text \<open>
  C4. The total weighted demand of site \<open>j\<close>, by car and by public transport, is the sum
  over every demand point \<open>i\<close> of the time from \<open>i\<close> to \<open>j\<close> times the referrals of \<open>i\<close>. The
  nearest-site index does not enter.
\<close>

theorem weighted_demand_over_all_points:
  assumes "shape car_time = [length gp_df, length hospital_df]"
    and "shape pt_time = [length gp_df, length hospital_df]"
    and "hospital_df \<noteq> []"
  shows "\<exists>s. hospital_summary dt float64_sum hospital_df gp_df car_time pt_time = Inr s \<and>
           length (Total_Weighted_Demand_Car s) = length hospital_df \<and>
           length (Total_Weighted_Demand_PT s) = length hospital_df \<and>
           (\<forall>j<length hospital_df.
              Total_Weighted_Demand_Car s ! j
                = (\<Sum>i<length gp_df. item car_time [i, j] * Referrals (gp_df ! i)) \<and>
              Total_Weighted_Demand_PT s ! j
                = (\<Sum>i<length gp_df. item pt_time [i, j] * Referrals (gp_df ! i)))"
  using hospital_summary_ok [OF assms, of dt float64_sum] by force

theorem weighted_demand_over_all_points_witness:
  "\<exists>s.
     hospital_summary Int64 sum_list
       [\<lparr>Description = ''Site A'', result_latitude = 5151 / 100, result_longitude = - (11 / 100),
          Referrals = 0\<rparr>,
        \<lparr>Description = ''Site B'', result_latitude = 516 / 10, result_longitude = - (2 / 10),
          Referrals = 0\<rparr>]
       [\<lparr>Description = ''GP 1'', result_latitude = 515 / 10, result_longitude = - (1 / 10),
          Referrals = 100\<rparr>,
        \<lparr>Description = ''GP 2'', result_latitude = 5152 / 100, result_longitude = - (12 / 100),
          Referrals = 50\<rparr>]
       \<lparr>shape = [2, 2], dat = [2, 5, 7, 3]\<rparr> \<lparr>shape = [2, 2], dat = [4, 10, 14, 6]\<rparr> = Inr s \<and>
     Total_Weighted_Demand_Car s ! 0 = 550 \<and> Total_Weighted_Demand_Car s ! 1 = 650 \<and>
     Total_Weighted_Demand_PT s ! 0 = 1100 \<and> Total_Weighted_Demand_PT s ! 1 = 1300"
proof -
  let ?hospital_df =
    "[\<lparr>Description = ''Site A'', result_latitude = 5151 / 100, result_longitude = - (11 / 100),
          Referrals = 0\<rparr>,
        \<lparr>Description = ''Site B'', result_latitude = 516 / 10, result_longitude = - (2 / 10),
          Referrals = 0\<rparr>]"
  let ?gp_df =
    "[\<lparr>Description = ''GP 1'', result_latitude = 515 / 10, result_longitude = - (1 / 10),
          Referrals = 100\<rparr>,
        \<lparr>Description = ''GP 2'', result_latitude = 5152 / 100, result_longitude = - (12 / 100),
          Referrals = 50\<rparr>]"
  have h: "shape \<lparr>shape = [2, 2], dat = [2, 5, 7, 3 :: real]\<rparr> = [length ?gp_df, length ?hospital_df]"
      "shape \<lparr>shape = [2, 2], dat = [4, 10, 14, 6 :: real]\<rparr> = [length ?gp_df, length ?hospital_df]"
      "?hospital_df \<noteq> []"
    by simp_all
  obtain s where r:
      "hospital_summary Int64 sum_list ?hospital_df ?gp_df \<lparr>shape = [2, 2], dat = [2, 5, 7, 3]\<rparr>
         \<lparr>shape = [2, 2], dat = [4, 10, 14, 6]\<rparr> = Inr s"
      "\<forall>j<length ?hospital_df.
         Total_Weighted_Demand_Car s ! j
           = (\<Sum>i<length ?gp_df. item \<lparr>shape = [2, 2], dat = [2, 5, 7, 3 :: real]\<rparr> [i, j]
                * Referrals (?gp_df ! i)) \<and>
         Total_Weighted_Demand_PT s ! j
           = (\<Sum>i<length ?gp_df. item \<lparr>shape = [2, 2], dat = [4, 10, 14, 6 :: real]\<rparr> [i, j]
                * Referrals (?gp_df ! i))"
    using weighted_demand_over_all_points [OF h, of Int64 sum_list] by blast
  have two: "{..<2::nat} = {0, 1}" by auto
  have "Total_Weighted_Demand_Car s ! 0 = 550" "Total_Weighted_Demand_Car s ! 1 = 650"
      "Total_Weighted_Demand_PT s ! 0 = 1100" "Total_Weighted_Demand_PT s ! 1 = 1300"
    using r(2) [rule_format, of 0] r(2) [rule_format, of 1]
    by (simp_all add: item_def ravel_def two)
  then show ?thesis
    using r(1) by (intro exI [of _ s]) simp
qed

lemma baseline_comparison_ok:
  assumes "shape car_time = [length gp_df, m]" and "shape pt_time = [length gp_df, m]"
    and "0 < m"
  shows "\<exists>c. baseline_comparison car_time pt_time gp_df w_car w_pt = Inr c \<and>
           total_weighted_car c = asum w_car \<and> total_weighted_pt c = asum w_pt \<and>
           baseline_total_car c = (\<Sum>i<length gp_df. item car_time [i, 0] * Referrals (gp_df ! i)) \<and>
           baseline_total_pt c = (\<Sum>i<length gp_df. item pt_time [i, 0] * Referrals (gp_df ! i)) \<and>
           improvement_car_pct c
             = (if baseline_total_car c > 0
                then (baseline_total_car c - total_weighted_car c) / baseline_total_car c * 100
                else 0) \<and>
           improvement_pt_pct c
             = (if baseline_total_pt c > 0
                then (baseline_total_pt c - total_weighted_pt c) / baseline_total_pt c * 100
                else 0)"
proof -
  let ?n = "length gp_df"
  obtain bc where bc: "column car_time 0 = Inr bc" "wf bc" "shape bc = [?n]"
      "\<forall>i<?n. item bc [i] = item car_time [i, 0]"
    using column_2d [OF assms(1,3)] by blast
  obtain bp where bp: "column pt_time 0 = Inr bp" "wf bp" "shape bp = [?n]"
      "\<forall>i<?n. item bp [i] = item pt_time [i, 0]"
    using column_2d [OF assms(2,3)] by blast
  obtain wc where wc: "ufunc2 (*) bc (referrals_column gp_df) = Inr wc" "wf wc" "shape wc = [?n]"
      "\<forall>i<?n. item wc [i] = item bc [i] * item (referrals_column gp_df) [i]"
    using ufunc2_same_1d [OF bc(3) shape_referrals_column] by blast
  obtain wp where wp: "ufunc2 (*) bp (referrals_column gp_df) = Inr wp" "wf wp" "shape wp = [?n]"
      "\<forall>i<?n. item wp [i] = item bp [i] * item (referrals_column gp_df) [i]"
    using ufunc2_same_1d [OF bp(3) shape_referrals_column] by blast
  have sc: "asum wc = (\<Sum>i<?n. item car_time [i, 0] * Referrals (gp_df ! i))"
    using wc(4) bc(4) by (simp add: asum_1d [OF wc(2,3)] item_referrals_column)
  have sp: "asum wp = (\<Sum>i<?n. item pt_time [i, 0] * Referrals (gp_df ! i))"
    using wp(4) bp(4) by (simp add: asum_1d [OF wp(2,3)] item_referrals_column)
  show ?thesis
    by (simp add: baseline_comparison_def bc(1) bp(1) wc(1) wp(1) Let_def sc sp)
qed

text \<open>
  C5. The baseline total of a mode is the sum over the demand points of the time to the
  first site, column 0, times the referrals. The improvement percentage of the mode is
  (baseline total - scenario total) / baseline total * 100 when the baseline total is
  positive, and 0 when the baseline total is 0; car and public transport are computed
  apart.
\<close>

theorem improvement_percentage:
  assumes "shape car_time = [length gp_df, m]" and "shape pt_time = [length gp_df, m]"
    and "0 < m"
  shows "\<exists>c. baseline_comparison car_time pt_time gp_df w_car w_pt = Inr c \<and>
           total_weighted_car c = asum w_car \<and> total_weighted_pt c = asum w_pt \<and>
           baseline_total_car c = (\<Sum>i<length gp_df. item car_time [i, 0] * Referrals (gp_df ! i)) \<and>
           baseline_total_pt c = (\<Sum>i<length gp_df. item pt_time [i, 0] * Referrals (gp_df ! i)) \<and>
           (0 < baseline_total_car c \<longrightarrow>
              improvement_car_pct c
                = (baseline_total_car c - total_weighted_car c) / baseline_total_car c * 100) \<and>
           (baseline_total_car c = 0 \<longrightarrow> improvement_car_pct c = 0) \<and>
           (0 < baseline_total_pt c \<longrightarrow>
              improvement_pt_pct c
                = (baseline_total_pt c - total_weighted_pt c) / baseline_total_pt c * 100) \<and>
           (baseline_total_pt c = 0 \<longrightarrow> improvement_pt_pct c = 0)"
proof -
  obtain c where c: "baseline_comparison car_time pt_time gp_df w_car w_pt = Inr c"
      "total_weighted_car c = asum w_car" "total_weighted_pt c = asum w_pt"
      "baseline_total_car c = (\<Sum>i<length gp_df. item car_time [i, 0] * Referrals (gp_df ! i))"
      "baseline_total_pt c = (\<Sum>i<length gp_df. item pt_time [i, 0] * Referrals (gp_df ! i))"
      "improvement_car_pct c
         = (if baseline_total_car c > 0
            then (baseline_total_car c - total_weighted_car c) / baseline_total_car c * 100
            else 0)"
      "improvement_pt_pct c
         = (if baseline_total_pt c > 0
            then (baseline_total_pt c - total_weighted_pt c) / baseline_total_pt c * 100
            else 0)"
    using baseline_comparison_ok [OF assms] by blast
  have "0 < baseline_total_car c \<longrightarrow>
          improvement_car_pct c
            = (baseline_total_car c - total_weighted_car c) / baseline_total_car c * 100"
       "baseline_total_car c = 0 \<longrightarrow> improvement_car_pct c = 0"
       "0 < baseline_total_pt c \<longrightarrow>
          improvement_pt_pct c
            = (baseline_total_pt c - total_weighted_pt c) / baseline_total_pt c * 100"
       "baseline_total_pt c = 0 \<longrightarrow> improvement_pt_pct c = 0"
    using c(6,7) by simp_all
  then show ?thesis
    using c(1-5) by (intro exI [of _ c]) simp
qed

theorem improvement_percentage_witness:
  "\<exists>c. baseline_comparison \<lparr>shape = [1, 2], dat = [2, 1]\<rparr> \<lparr>shape = [1, 2], dat = [0, 0]\<rparr>
         [\<lparr>Description = ''GP 1'', result_latitude = 515 / 10, result_longitude = - (1 / 10),
            Referrals = 10\<rparr>]
         \<lparr>shape = [1], dat = [10]\<rparr> \<lparr>shape = [1], dat = [0]\<rparr> = Inr c \<and>
     baseline_total_car c = 20 \<and> improvement_car_pct c = 50 \<and>
     baseline_total_pt c = 0 \<and> improvement_pt_pct c = 0"
proof -
  let ?gp_df = "[\<lparr>Description = ''GP 1'', result_latitude = 515 / 10,
                   result_longitude = - (1 / 10), Referrals = 10\<rparr>]"
  have h: "shape \<lparr>shape = [1, 2], dat = [2, 1 :: real]\<rparr> = [length ?gp_df, 2]"
      "shape \<lparr>shape = [1, 2], dat = [0, 0 :: real]\<rparr> = [length ?gp_df, 2]" "(0::nat) < 2"
    by simp_all
  obtain c where r:
      "baseline_comparison \<lparr>shape = [1, 2], dat = [2, 1]\<rparr> \<lparr>shape = [1, 2], dat = [0, 0]\<rparr>
         ?gp_df \<lparr>shape = [1], dat = [10]\<rparr> \<lparr>shape = [1], dat = [0]\<rparr> = Inr c"
      "total_weighted_car c = asum \<lparr>shape = [1], dat = [10]\<rparr>"
      "baseline_total_car c
         = (\<Sum>i<length ?gp_df. item \<lparr>shape = [1, 2], dat = [2, 1 :: real]\<rparr> [i, 0]
              * Referrals (?gp_df ! i))"
      "baseline_total_pt c
         = (\<Sum>i<length ?gp_df. item \<lparr>shape = [1, 2], dat = [0, 0 :: real]\<rparr> [i, 0]
              * Referrals (?gp_df ! i))"
      "0 < baseline_total_car c \<longrightarrow>
         improvement_car_pct c
           = (baseline_total_car c - total_weighted_car c) / baseline_total_car c * 100"
      "baseline_total_pt c = 0 \<longrightarrow> improvement_pt_pct c = 0"
    using improvement_percentage [OF h, of "\<lparr>shape = [1], dat = [10]\<rparr>"
        "\<lparr>shape = [1], dat = [0]\<rparr>"] by blast
  have b: "baseline_total_car c = 20" "baseline_total_pt c = 0" "total_weighted_car c = 10"
    using r(2,3,4) by (simp_all add: item_def ravel_def asum_def)
  then have "improvement_car_pct c = 50" "improvement_pt_pct c = 0"
    using r(5,6) by simp_all
  then show ?thesis
    using r(1) b by (intro exI [of _ c]) simp
qed

section \<open>The script as a whole\<close>

lemma shape_coords [simp]: "shape (coords df) = [length df, 2]"
  by (simp add: coords_def)

text \<open>
  The pieces fit: for a site set that is not empty and positive speeds the script reaches
  its end, with the shapes the claims above ask for.
\<close>

lemma scenario_returns:
  assumes "hospital_df \<noteq> []" "0 < car_speed" "0 < pt_speed"
  shows "\<exists>m c s. scenario dt float64_sum gp_df hospital_df car_speed pt_speed
                   fuel_cost_per_mile co2_per_mile
           = Inr (m, c, s)"
proof -
  let ?n = "length gp_df" and ?k = "length hospital_df"
  have pos: "0 < ?k" using assms(1) by simp
  obtain D C P where mat: "compute_distance_time (coords gp_df) (coords hospital_df)
        car_speed pt_speed = Inr (D, C, P)"
      "shape D = [?n, ?k]" "shape C = [?n, ?k]" "shape P = [?n, ?k]"
    using compute_distance_time_ok [OF shape_coords shape_coords assms(2,3)] by blast
  obtain m where m: "nearest_metrics (Array D) (Array C) (Array P)
        (Array (referrals_column gp_df)) car_speed fuel_cost_per_mile co2_per_mile = Inr m"
    using nearest_metrics_ok [OF mat(2) pos mat(3) pos mat(4) pos shape_referrals_column]
    by blast
  obtain c where c: "baseline_comparison C P gp_df (weighted_car m) (weighted_pt m) = Inr c"
    using baseline_comparison_ok [OF mat(3,4) pos] by blast
  obtain idx s where s: "hospital_summary dt float64_sum hospital_df gp_df C P = Inr s"
    using hospital_summary_ok [OF mat(3,4) assms(1), of dt float64_sum] by blast
  show ?thesis
    by (simp add: scenario_def mat(1) m c s)
qed

end
